theory Spec2Isabelle
  imports Main "HOL-Library.Sublist" "HOL-Library.List_Lexorder"
begin

section \<open>Python values\<close>

text \<open>
  A Python \<open>str\<close> is a sequence of Unicode code points, so it is modelled as a list
  of natural numbers (\<open>len\<close>, slicing, \<open>strip\<close> and the regular expressions of
  \<open>archive_tool.py\<close> all count code points). \<open>ustr\<close> turns an ASCII literal into
  such a string.
\<close>

type_synonym pystr = "nat list"

definition ustr :: "string \<Rightarrow> pystr" where
  "ustr cs = map of_char cs"

text \<open>The exceptions that the modelled functions can raise.\<close>

datatype py_error =
    AttributeError
  | TypeError
  | ValueError
  | OverflowError
  | TypeOrAttributeError

text \<open>
  Floating point is not modelled: a float is a value of an arbitrary type \<open>'f\<close>, and
  the few float operations that \<open>archive_tool.py\<close> applies to one are the fields of
  \<open>float_ops\<close>. Every theorem below holds for every choice of these operations.
  \<^item> \<open>f_is_zero\<close>: the truth value test (\<open>not x\<close> holds for \<open>0.0\<close> only);
  \<^item> \<open>f_of_int\<close>: \<open>float(n)\<close> for an \<open>int\<close>, \<open>None\<close> for \<open>OverflowError\<close>;
  \<^item> \<open>f_of_str\<close>: \<open>float(s)\<close> for a \<open>str\<close>, \<open>None\<close> for \<open>ValueError\<close>;
  \<^item> \<open>f_gt_1e12\<close>: \<open>t > 1e12\<close>;
  \<^item> \<open>f_div_1000\<close>: \<open>t / 1000.0\<close>;
  \<^item> \<open>f_to_int\<close>: \<open>int(t)\<close>, which raises \<open>ValueError\<close> for a NaN and
    \<open>OverflowError\<close> for an infinity.
\<close>

record 'f float_ops =
  f_is_zero :: "'f \<Rightarrow> bool"
  f_of_int :: "int \<Rightarrow> 'f option"
  f_of_str :: "pystr \<Rightarrow> 'f option"
  f_gt_1e12 :: "'f \<Rightarrow> bool"
  f_div_1000 :: "'f \<Rightarrow> 'f"
  f_to_int :: "'f \<Rightarrow> py_error + int"

text \<open>
  The values that \<open>json.load\<close> and \<open>JSONDecoder.raw_decode\<close> produce. A \<open>dict\<close>
  keeps its insertion order, which \<open>list(mapping.keys())\<close> reads, so it is an
  association list; its keys are distinct strings.
\<close>

datatype 'f json =
    JNull
  | JBool bool
  | JInt int
  | JFloat 'f
  | JStr pystr
  | JList "'f json list"
  | JDict "(pystr \<times> 'f json) list"

type_synonym 'f pydict = "(pystr \<times> 'f json) list"

text \<open>Python's truth value test (\<open>if x\<close>, \<open>not x\<close>, \<open>x or y\<close>).\<close>

fun truthy :: "'f float_ops \<Rightarrow> 'f json \<Rightarrow> bool" where
  "truthy fl JNull = False"
| "truthy fl (JBool b) = b"
| "truthy fl (JInt n) = (n \<noteq> 0)"
| "truthy fl (JFloat x) = (\<not> f_is_zero fl x)"
| "truthy fl (JStr s) = (s \<noteq> [])"
| "truthy fl (JList xs) = (xs \<noteq> [])"
| "truthy fl (JDict d) = (d \<noteq> [])"

definition py_or :: "'f float_ops \<Rightarrow> 'f json \<Rightarrow> 'f json \<Rightarrow> 'f json" where
  "py_or fl a b = (if truthy fl a then a else b)"

text \<open>\<open>d.get(k, default)\<close> on a dict, and \<open>k in d\<close> for a string key.\<close>

definition dict_get :: "'f pydict \<Rightarrow> pystr \<Rightarrow> 'f json \<Rightarrow> 'f json" where
  "dict_get d k dflt = (case map_of d k of Some v \<Rightarrow> v | None \<Rightarrow> dflt)"

definition dict_keys :: "'f pydict \<Rightarrow> pystr list" where
  "dict_keys d = map fst d"

definition has_key :: "'f pydict \<Rightarrow> pystr \<Rightarrow> bool" where
  "has_key d k = (k \<in> set (dict_keys d))"

text \<open>
  \<open>x.get(k, default)\<close> on an arbitrary value: only a dict has the method, every other
  value raises \<open>AttributeError\<close>.
\<close>

fun py_get :: "'f json \<Rightarrow> pystr \<Rightarrow> 'f json \<Rightarrow> py_error + 'f json" where
  "py_get (JDict d) k dflt = Inr (dict_get d k dflt)"
| "py_get _ k dflt = Inl AttributeError"

text \<open>
  \<open>x in mapping\<close> and \<open>x in seen\<close> for an arbitrary value \<open>x\<close> against a dict or a
  set whose elements are strings: a list or a dict is unhashable (\<open>TypeError\<close>), a
  string is looked up, any other value is hashable and is not a member.
\<close>

fun py_in :: "'f json \<Rightarrow> pystr set \<Rightarrow> py_error + bool" where
  "py_in (JStr s) ks = Inr (s \<in> ks)"
| "py_in (JList xs) ks = Inl TypeError"
| "py_in (JDict d) ks = Inl TypeError"
| "py_in _ ks = Inr False"

text \<open>
  Iterating a value (\<open>for child_id in children\<close>): a list gives its elements, a
  string its characters, a dict its keys; the other values are not iterable.
\<close>

fun py_iter :: "'f json \<Rightarrow> py_error + 'f json list" where
  "py_iter (JList xs) = Inr xs"
| "py_iter (JStr s) = Inr (map (\<lambda>c. JStr [c]) s)"
| "py_iter (JDict d) = Inr (map JStr (dict_keys d))"
| "py_iter _ = Inl TypeError"

text \<open>
  \<open>str.strip()\<close> removes the leading and trailing characters for which
  \<open>str.isspace\<close> holds.
\<close>

definition is_space :: "nat \<Rightarrow> bool" where
  "is_space c \<longleftrightarrow>
     (9 \<le> c \<and> c \<le> 13) \<or> (28 \<le> c \<and> c \<le> 32) \<or> c = 133 \<or> c = 160 \<or> c = 5760 \<or>
     (8192 \<le> c \<and> c \<le> 8202) \<or> c = 8232 \<or> c = 8233 \<or> c = 8239 \<or> c = 8287 \<or> c = 12288"

definition strip :: "pystr \<Rightarrow> pystr" where
  "strip s = rev (dropWhile is_space (rev (dropWhile is_space s)))"

text \<open>\<open>x.strip()\<close> on an arbitrary value: only a string has the method.\<close>

fun py_strip :: "'f json \<Rightarrow> py_error + pystr" where
  "py_strip (JStr s) = Inr (strip s)"
| "py_strip _ = Inl AttributeError"

text \<open>\<open>sep.join(xs)\<close>.\<close>

fun join :: "pystr \<Rightarrow> pystr list \<Rightarrow> pystr" where
  "join sep [] = []"
| "join sep [x] = x"
| "join sep (x # y # ys) = x @ sep @ join sep (y # ys)"

section \<open>Message normalizer\<close>

text \<open>
  \<open>normalize_timestamp\<close>. \<open>float(ts)\<close> raises for a list or a dict
  (\<open>TypeError\<close>), for a string that is no number (\<open>ValueError\<close>) and for an integer
  beyond the float range (\<open>OverflowError\<close>); all are caught and give 0. \<open>int(t)\<close> is
  outside the \<open>try\<close>, so its exceptions escape.

  For an integer of magnitude at most \<open>2^53\<close> the float arithmetic is exact:
  \<open>float(n)\<close> is \<open>n\<close> itself, and where \<open>n > 10^12\<close> the quotient \<open>t / 1000.0\<close>
  lies at least 0.001 below the next integer, more than half the spacing of the
  floats of that size, so \<open>int(t / 1000.0)\<close> is \<open>n div 1000\<close>. The model computes
  these cases on integers and leaves every other number to \<open>float_ops\<close>.
\<close>

definition float_seconds :: "'f float_ops \<Rightarrow> 'f \<Rightarrow> py_error + int" where
  "float_seconds fl t = f_to_int fl (if f_gt_1e12 fl t then f_div_1000 fl t else t)"

fun normalize_timestamp :: "'f float_ops \<Rightarrow> 'f json \<Rightarrow> py_error + int" where
  "normalize_timestamp fl JNull = Inr 0"
| "normalize_timestamp fl (JBool b) = Inr (if b then 1 else 0)"
| "normalize_timestamp fl (JInt n) =
     (if \<bar>n\<bar> \<le> 2 ^ 53 then Inr (if n > 10 ^ 12 then n div 1000 else n)
      else (case f_of_int fl n of None \<Rightarrow> Inr 0 | Some t \<Rightarrow> float_seconds fl t))"
| "normalize_timestamp fl (JFloat t) = float_seconds fl t"
| "normalize_timestamp fl (JStr s) =
     (case f_of_str fl s of None \<Rightarrow> Inr 0 | Some t \<Rightarrow> float_seconds fl t)"
| "normalize_timestamp fl (JList xs) = Inr 0"
| "normalize_timestamp fl (JDict d) = Inr 0"

text \<open>The canonical message \<open>{"role": ..., "content": ..., "ts": ...}\<close>.\<close>

record 'f nmsg =
  m_role :: "'f json"
  m_content :: pystr
  m_ts :: int

text \<open>
  The \<open>content\<close> variable of \<open>normalize_message\<close> before the final
  \<open>(content or "").strip()\<close>, for a message that is the dict \<open>d\<close>. The \<open>text\<close>
  field is taken as it is, whatever its type.
\<close>

definition message_content :: "'f pydict \<Rightarrow> 'f json" where
  "message_content d =
     (case dict_get d (ustr ''content'') JNull of
        JDict c \<Rightarrow>
          if has_key c (ustr ''parts'') then
            (case dict_get c (ustr ''parts'') (JList []) of
               JList ps \<Rightarrow> JStr (join [10] (concat (map (\<lambda>p. case p of JStr s \<Rightarrow> [s] | _ \<Rightarrow> []) ps)))
             | _ \<Rightarrow> JStr [])
          else if has_key c (ustr ''text'') then dict_get c (ustr ''text'') (JStr [])
          else JStr []
      | JStr s \<Rightarrow> JStr s
      | _ \<Rightarrow> JStr [])"

text \<open>
  The raw timestamp of a message dict: \<open>create_time\<close>, and when that is falsy
  \<open>metadata.timestamp or metadata.timestamp_\<close>. \<open>normalize_message\<close> and
  \<open>get_node_message_timestamp\<close> hold the same four lines.
\<close>

definition message_raw_ts :: "'f float_ops \<Rightarrow> 'f pydict \<Rightarrow> py_error + 'f json" where
  "message_raw_ts fl d =
     (let t = dict_get d (ustr ''create_time'') JNull in
      if truthy fl t then Inr t
      else
        (let meta = py_or fl (dict_get d (ustr ''metadata'') (JDict [])) (JDict []) in
         case py_get meta (ustr ''timestamp'') JNull of
           Inl e \<Rightarrow> Inl e
         | Inr a \<Rightarrow>
             if truthy fl a then Inr a else py_get meta (ustr ''timestamp_'') JNull))"

definition normalize_message :: "'f float_ops \<Rightarrow> 'f json \<Rightarrow> py_error + 'f nmsg" where
  "normalize_message fl msg =
     (case msg of
        JDict d \<Rightarrow>
          (case py_get (py_or fl (dict_get d (ustr ''author'') (JDict [])) (JDict []))
                  (ustr ''role'') JNull of
             Inl e \<Rightarrow> Inl e
           | Inr r \<Rightarrow>
               (let role = py_or fl (py_or fl r (dict_get d (ustr ''role'') JNull))
                             (JStr (ustr ''assistant''));
                    content = message_content d
                in case message_raw_ts fl d of
                     Inl e \<Rightarrow> Inl e
                   | Inr ts \<Rightarrow>
                       (case py_strip (py_or fl content (JStr [])) of
                          Inl e \<Rightarrow> Inl e
                        | Inr c \<Rightarrow>
                            (case normalize_timestamp fl ts of
                               Inl e \<Rightarrow> Inl e
                             | Inr t \<Rightarrow> Inr \<lparr>m_role = role, m_content = c, m_ts = t\<rparr>))))
      | _ \<Rightarrow> Inl AttributeError)"

section \<open>Conversation linearizer\<close>

text \<open>
  \<open>get_node_message_timestamp\<close>: 0 for a falsy node or message, otherwise the
  normalized raw timestamp of the message. A truthy node or message that is no dict
  has no \<open>get\<close>.
\<close>

definition get_node_message_timestamp :: "'f float_ops \<Rightarrow> 'f json \<Rightarrow> py_error + int" where
  "get_node_message_timestamp fl node =
     (if \<not> truthy fl node then Inr 0
      else
        (case py_get node (ustr ''message'') JNull of
           Inl e \<Rightarrow> Inl e
         | Inr msg \<Rightarrow>
             if \<not> truthy fl msg then Inr 0
             else
               (case msg of
                  JDict d \<Rightarrow>
                    (case message_raw_ts fl d of
                       Inl e \<Rightarrow> Inl e
                     | Inr raw_ts \<Rightarrow> normalize_timestamp fl raw_ts)
                | _ \<Rightarrow> Inl AttributeError)))"

text \<open>
  The nested functions of \<open>linearize_conversation\<close> close over \<open>mapping\<close>, which
  is a dict wherever they walk it; the model passes it as the association list
  \<open>mp\<close>. \<open>(mapping.get(i) or {}).get("parent")\<close> is read by both walks.
\<close>

definition node_parent :: "'f float_ops \<Rightarrow> 'f pydict \<Rightarrow> pystr \<Rightarrow> py_error + 'f json" where
  "node_parent fl mp i = py_get (py_or fl (dict_get mp i JNull) (JDict [])) (ustr ''parent'') JNull"

text \<open>
  \<open>get_latest_subtree_timestamp\<close>. The memo table \<open>cache\<close> is threaded through the
  calls and returned. \<open>stack\<close> is passed down only: a call that returns has removed
  what it added, and a call that raises ends the whole linearization. The loop over
  the children is \<open>subtree_children\<close>, whose accumulator is \<open>best_ts\<close>.
\<close>

type_synonym ts_cache = "pystr \<rightharpoonup> int"

function get_latest_subtree_timestamp ::
    "'f float_ops \<Rightarrow> 'f pydict \<Rightarrow> pystr set \<Rightarrow> 'f json \<Rightarrow> ts_cache \<Rightarrow> py_error + int \<times> ts_cache"
  and subtree_children ::
    "'f float_ops \<Rightarrow> 'f pydict \<Rightarrow> pystr set \<Rightarrow> 'f json list \<Rightarrow> int \<Rightarrow> ts_cache \<Rightarrow> py_error + int \<times> ts_cache"
where
  "get_latest_subtree_timestamp fl mp stack node_id cache =
     (if \<not> truthy fl node_id then Inr (0, cache)
      else
        (case node_id of
           JStr s \<Rightarrow>
             if \<not> has_key mp s then Inr (0, cache)
             else
               (case cache s of
                  Some t \<Rightarrow> Inr (t, cache)
                | None \<Rightarrow>
                    if s \<in> stack then
                      (case get_node_message_timestamp fl (dict_get mp s JNull) of
                         Inl e \<Rightarrow> Inl e
                       | Inr t \<Rightarrow> Inr (t, cache))
                    else
                      (case get_node_message_timestamp fl (py_or fl (dict_get mp s JNull) (JDict [])) of
                         Inl e \<Rightarrow> Inl e
                       | Inr own \<Rightarrow>
                           (case py_get (py_or fl (dict_get mp s JNull) (JDict [])) (ustr ''children'') (JList []) of
                              Inl e \<Rightarrow> Inl e
                            | Inr ch \<Rightarrow>
                                (case py_iter (py_or fl ch (JList [])) of
                                   Inl e \<Rightarrow> Inl e
                                 | Inr cs \<Rightarrow>
                                     (case subtree_children fl mp (insert s stack) cs own cache of
                                        Inl e \<Rightarrow> Inl e
                                      | Inr (best_ts, cache') \<Rightarrow> Inr (best_ts, cache'(s \<mapsto> best_ts)))))))
         | JList xs \<Rightarrow> Inl TypeError
         | JDict d \<Rightarrow> Inl TypeError
         | _ \<Rightarrow> Inr (0, cache)))"
| "subtree_children fl mp stack [] best_ts cache = Inr (best_ts, cache)"
| "subtree_children fl mp stack (child_id # rest) best_ts cache =
     (case get_latest_subtree_timestamp fl mp stack child_id cache of
        Inl e \<Rightarrow> Inl e
      | Inr (child_ts, cache') \<Rightarrow>
          subtree_children fl mp stack rest (if child_ts > best_ts then child_ts else best_ts) cache')"
  by pat_completeness auto
termination
proof (relation "measures
    [\<lambda>x. case x of Inl (fl, mp, stack, node_id, cache) \<Rightarrow> card (set (dict_keys mp) - stack)
              | Inr (fl, mp, stack, cs, best_ts, cache) \<Rightarrow> card (set (dict_keys mp) - stack),
     \<lambda>x. case x of Inl _ \<Rightarrow> 0 | Inr (fl, mp, stack, cs, best_ts, cache) \<Rightarrow> Suc (length cs)]",
    goal_cases)
  case 1
  show ?case by simp
next
  case (2 fl mp stack node_id cache s)
  then have "s \<in> set (dict_keys mp) - stack"
    by (simp add: has_key_def)
  then have "card (set (dict_keys mp) - stack - {s}) < card (set (dict_keys mp) - stack)"
    by (intro card_Diff1_less) simp_all
  moreover have "set (dict_keys mp) - insert s stack = set (dict_keys mp) - stack - {s}"
    by auto
  ultimately show ?case by simp
next
  case 3
  then show ?case by simp
next
  case 4
  then show ?case by simp
qed

declare get_latest_subtree_timestamp.simps [simp del]

text \<open>
  \<open>collect_latest_branch_path\<close>. \<open>find_root\<close> is the loop that looks for the first
  identifier whose parent is \<open>None\<close> or no key of the mapping.
\<close>

fun find_root :: "'f float_ops \<Rightarrow> 'f pydict \<Rightarrow> pystr list \<Rightarrow> py_error + pystr option" where
  "find_root fl mp [] = Inr None"
| "find_root fl mp (i # rest) =
     (case node_parent fl mp i of
        Inl e \<Rightarrow> Inl e
      | Inr parent_id \<Rightarrow>
          if parent_id = JNull then Inr (Some i)
          else
            (case py_in parent_id (set (dict_keys mp)) of
               Inl e \<Rightarrow> Inl e
             | Inr b \<Rightarrow> if \<not> b then Inr (Some i) else find_root fl mp rest))"

text \<open>
  The loop over the children of the current node: a child that is no key of the
  mapping is skipped (an unhashable one raises), the first child is taken, and a
  later child replaces it only with a strictly greater subtree timestamp. The
  \<open>stack\<close> set is empty at each of these calls.
\<close>

fun pick_child ::
    "'f float_ops \<Rightarrow> 'f pydict \<Rightarrow> 'f json list \<Rightarrow> pystr option \<Rightarrow> int \<Rightarrow> ts_cache
      \<Rightarrow> py_error + pystr option \<times> ts_cache" where
  "pick_child fl mp [] next_id best_ts cache = Inr (next_id, cache)"
| "pick_child fl mp (child_id # rest) next_id best_ts cache =
     (case child_id of
        JStr s \<Rightarrow>
          if \<not> has_key mp s then pick_child fl mp rest next_id best_ts cache
          else
            (case get_latest_subtree_timestamp fl mp {} child_id cache of
               Inl e \<Rightarrow> Inl e
             | Inr (child_ts, cache') \<Rightarrow>
                 if next_id = None \<or> child_ts > best_ts
                 then pick_child fl mp rest (Some s) child_ts cache'
                 else pick_child fl mp rest next_id best_ts cache')
      | JList xs \<Rightarrow> Inl TypeError
      | JDict d \<Rightarrow> Inl TypeError
      | _ \<Rightarrow> pick_child fl mp rest next_id best_ts cache)"

text \<open>
  The descent \<open>while node_id and node_id not in visited and node_id in mapping\<close>.
  Here \<open>node_id\<close> is always a string: the root is a key of the mapping and every
  next node was found to be one.
\<close>

function descend ::
    "'f float_ops \<Rightarrow> 'f pydict \<Rightarrow> pystr set \<Rightarrow> pystr list \<Rightarrow> ts_cache \<Rightarrow> pystr
      \<Rightarrow> py_error + pystr list" where
  "descend fl mp visited ids cache node_id =
     (if node_id = [] \<or> node_id \<in> visited \<or> \<not> has_key mp node_id then Inr ids
      else
        (case py_get (py_or fl (dict_get mp node_id JNull) (JDict [])) (ustr ''children'') (JList []) of
           Inl e \<Rightarrow> Inl e
         | Inr ch \<Rightarrow>
             if \<not> truthy fl (py_or fl ch (JList [])) then Inr (ids @ [node_id])
             else
               (case py_iter (py_or fl ch (JList [])) of
                  Inl e \<Rightarrow> Inl e
                | Inr children \<Rightarrow>
                    (case pick_child fl mp children None (- 1) cache of
                       Inl e \<Rightarrow> Inl e
                     | Inr (next_id, cache') \<Rightarrow>
                         (case next_id of
                            None \<Rightarrow> Inr (ids @ [node_id])
                          | Some n \<Rightarrow>
                              if n = [] then Inr (ids @ [node_id])
                              else descend fl mp (insert node_id visited) (ids @ [node_id]) cache' n)))))"
  by pat_completeness auto
termination
proof (relation "measure (\<lambda>(fl, mp, visited, ids, cache, node_id). card (set (dict_keys mp) - visited))",
    goal_cases)
  case 1
  show ?case by simp
next
  case (2 fl mp visited ids cache node_id)
  then have "node_id \<in> set (dict_keys mp) - visited"
    by (simp add: has_key_def)
  then have "card (set (dict_keys mp) - visited - {node_id}) < card (set (dict_keys mp) - visited)"
    by (intro card_Diff1_less) simp_all
  moreover have "set (dict_keys mp) - insert node_id visited = set (dict_keys mp) - visited - {node_id}"
    by auto
  ultimately show ?case by simp
qed

declare descend.simps [simp del]

definition collect_latest_branch_path :: "'f float_ops \<Rightarrow> 'f pydict \<Rightarrow> py_error + pystr list" where
  "collect_latest_branch_path fl mp =
     (case dict_keys mp of
        [] \<Rightarrow> Inr []
      | first_id # others \<Rightarrow>
          (case find_root fl mp (dict_keys mp) of
             Inl e \<Rightarrow> Inl e
           | Inr root \<Rightarrow>
               descend fl mp {} [] Map.empty (case root of None \<Rightarrow> first_id | Some i \<Rightarrow> i)))"

text \<open>
  \<open>collect_path_from_current_node\<close>. \<open>walk_up\<close> is its \<open>while\<close> loop, with the
  variables \<open>seen\<close>, \<open>ids\<close> and \<open>node_id\<close>; the parent of a node can be any value.
\<close>

function walk_up ::
    "'f float_ops \<Rightarrow> 'f pydict \<Rightarrow> pystr set \<Rightarrow> pystr list \<Rightarrow> 'f json \<Rightarrow> py_error + pystr list" where
  "walk_up fl mp seen ids node_id =
     (if \<not> truthy fl node_id then Inr ids
      else
        (case node_id of
           JStr s \<Rightarrow>
             if s \<in> seen \<or> \<not> has_key mp s then Inr ids
             else
               (case node_parent fl mp s of
                  Inl e \<Rightarrow> Inl e
                | Inr parent_id \<Rightarrow> walk_up fl mp (insert s seen) (ids @ [s]) parent_id)
         | JList xs \<Rightarrow> Inl TypeError
         | JDict d \<Rightarrow> Inl TypeError
         | _ \<Rightarrow> Inr ids))"
  by pat_completeness auto
termination
proof (relation "measure (\<lambda>(fl, mp, seen, ids, node_id). card (set (dict_keys mp) - seen))",
    goal_cases)
  case 1
  show ?case by simp
next
  case (2 fl mp seen ids node_id s)
  then have "s \<in> set (dict_keys mp) - seen"
    by (simp add: has_key_def)
  then have "card (set (dict_keys mp) - seen - {s}) < card (set (dict_keys mp) - seen)"
    by (intro card_Diff1_less) simp_all
  moreover have "set (dict_keys mp) - insert s seen = set (dict_keys mp) - seen - {s}"
    by auto
  ultimately show ?case by simp
qed

declare walk_up.simps [simp del]

text \<open>\<open>conv\<close> is the conversation dict, read for \<open>current_node\<close>.\<close>

definition collect_path_from_current_node ::
    "'f float_ops \<Rightarrow> 'f pydict \<Rightarrow> 'f pydict \<Rightarrow> py_error + pystr list" where
  "collect_path_from_current_node fl conv mp =
     (let node_id = dict_get conv (ustr ''current_node'') JNull in
      if \<not> truthy fl node_id then Inr []
      else
        (case py_in node_id (set (dict_keys mp)) of
           Inl e \<Rightarrow> Inl e
         | Inr b \<Rightarrow>
             if \<not> b then Inr []
             else (case walk_up fl mp {} [] node_id of Inl e \<Rightarrow> Inl e | Inr ids \<Rightarrow> Inr (rev ids))))"

fun path_to_messages :: "'f float_ops \<Rightarrow> 'f pydict \<Rightarrow> pystr list \<Rightarrow> py_error + 'f nmsg list" where
  "path_to_messages fl mp [] = Inr []"
| "path_to_messages fl mp (pid # rest) =
     (case py_get (py_or fl (dict_get mp pid JNull) (JDict [])) (ustr ''message'') JNull of
        Inl e \<Rightarrow> Inl e
      | Inr msg \<Rightarrow>
          if \<not> truthy fl msg then path_to_messages fl mp rest
          else
            (case normalize_message fl msg of
               Inl e \<Rightarrow> Inl e
             | Inr m \<Rightarrow>
                 (case path_to_messages fl mp rest of
                    Inl e \<Rightarrow> Inl e
                  | Inr out \<Rightarrow> Inr (if m_content m \<noteq> [] then m # out else out))))"

text \<open>The two candidates, \<open>primary\<close> and \<open>fallback\<close>, and their reconciliation.\<close>

definition active_path_candidate ::
    "'f float_ops \<Rightarrow> 'f pydict \<Rightarrow> 'f pydict \<Rightarrow> py_error + 'f nmsg list" where
  "active_path_candidate fl conv mp =
     (case collect_path_from_current_node fl conv mp of
        Inl e \<Rightarrow> Inl e
      | Inr path_ids \<Rightarrow> path_to_messages fl mp path_ids)"

definition latest_branch_candidate :: "'f float_ops \<Rightarrow> 'f pydict \<Rightarrow> py_error + 'f nmsg list" where
  "latest_branch_candidate fl mp =
     (case collect_latest_branch_path fl mp of
        Inl e \<Rightarrow> Inl e
      | Inr path_ids \<Rightarrow> path_to_messages fl mp path_ids)"

text \<open>
  \<open>linearize_conversation\<close>. A truthy \<open>mapping\<close> that is no dict makes every run
  raise: either \<open>node_id not in mapping\<close> or \<open>mapping.get\<close> fails in the first walk,
  or \<open>mapping.keys()\<close> fails in the second. The model gives this case one error
  value, \<open>TypeOrAttributeError\<close>.
\<close>

definition linearize_conversation :: "'f float_ops \<Rightarrow> 'f json \<Rightarrow> py_error + 'f nmsg list" where
  "linearize_conversation fl conv =
     (if \<not> truthy fl conv then Inr []
      else
        (case conv of
           JDict cd \<Rightarrow>
             if \<not> truthy fl (dict_get cd (ustr ''mapping'') JNull) then Inr []
             else
               (case dict_get cd (ustr ''mapping'') JNull of
                  JDict mp \<Rightarrow>
                    (case active_path_candidate fl cd mp of
                       Inl e \<Rightarrow> Inl e
                     | Inr primary \<Rightarrow>
                         (case latest_branch_candidate fl mp of
                            Inl e \<Rightarrow> Inl e
                          | Inr fallback \<Rightarrow>
                              if primary = [] then Inr fallback
                              else if length primary < length fallback then Inr fallback
                              else Inr primary))
                | _ \<Rightarrow> Inl TypeOrAttributeError)
         | _ \<Rightarrow> Inl AttributeError))"

section \<open>Topic segmenter\<close>

text \<open>
  \<open>detect_topic_boundaries\<close> reads the leading timestamp of a line with
  \<open>re.match\<close>, \<open>datetime.strptime\<close> and \<open>datetime.timestamp\<close>, which converts
  in the local time zone of the process, and takes \<open>None\<close> when the match or the
  conversion fails. The model takes this reading of a line as the parameter
  \<open>parse_ts\<close>.
\<close>

type_synonym ts_parser = "pystr \<Rightarrow> int option"




text \<open>\<open>if ts: last_ts = ts\<close>.\<close>

definition next_last_ts :: "int option \<Rightarrow> int option \<Rightarrow> int option" where
  "next_last_ts last_ts ts = (case ts of None \<Rightarrow> last_ts | Some t \<Rightarrow> if t \<noteq> 0 then ts else last_ts)"



text \<open>The decimal digits of a number, and \<open>f"{n:03d}"\<close>, \<open>f"{n:06d}"\<close> as \<open>zero_pad\<close>.\<close>

fun decimal :: "nat \<Rightarrow> pystr" where
  "decimal n = (if n < 10 then [48 + n] else decimal (n div 10) @ [48 + n mod 10])"

declare decimal.simps [simp del]

definition zero_pad :: "nat \<Rightarrow> pystr \<Rightarrow> pystr" where
  "zero_pad w s = replicate (w - length s) 48 @ s"








section \<open>Topic splitter\<close>

text \<open>
  \<open>s.replace(old, "")\<close>: every occurrence of \<open>old\<close> is removed, from left to
  right (nothing is removed for an empty \<open>old\<close>).
\<close>

function remove_all :: "pystr \<Rightarrow> pystr \<Rightarrow> pystr" where
  "remove_all old s =
     (if old = [] \<or> s = [] then s
      else if prefix old s then remove_all old (drop (length old) s)
      else hd s # remove_all old (tl s))"
  by pat_completeness auto
termination
  by (relation "measure (\<lambda>(old, s). length s)") auto

declare remove_all.simps [simp del]

text \<open>
  \<open>line.startswith("[TOPIC_START]")\<close>, and the title
  \<open>line.replace("[TOPIC_START]", "").strip()\<close> of such a line.
\<close>

definition topic_start_tag :: pystr where
  "topic_start_tag = ustr ''[TOPIC_START]''"

definition is_marker :: "pystr \<Rightarrow> bool" where
  "is_marker line = prefix topic_start_tag line"

definition topic_title :: "pystr \<Rightarrow> pystr" where
  "topic_title line = strip (remove_all topic_start_tag line)"

text \<open>
  The file name \<open>re.sub\<close> of \<open>current\<close>, with the digits, the ASCII letters, the code points
  4E00 to 9FA5 (hexadecimal), the underscore and the hyphen as the characters that are kept: each
  maximal run of other characters becomes one underscore. \<open>in_run\<close> says that the
  character before was such a character.
\<close>

definition filename_char :: "nat \<Rightarrow> bool" where
  "filename_char c \<longleftrightarrow>
     (48 \<le> c \<and> c \<le> 57) \<or> (65 \<le> c \<and> c \<le> 90) \<or> (97 \<le> c \<and> c \<le> 122)
     \<or> (19968 \<le> c \<and> c \<le> 40869) \<or> c = 95 \<or> c = 45"

fun sanitize :: "bool \<Rightarrow> pystr \<Rightarrow> pystr" where
  "sanitize in_run [] = []"
| "sanitize in_run (c # cs) =
     (if filename_char c then c # sanitize False cs
      else if in_run then sanitize True cs
      else 95 # sanitize True cs)"

text \<open>
  A topic document as \<open>flush\<close> writes it: the file name, the title and date of the
  front matter, and the buffered lines; \<open>render_doc\<close> is the text of the file.
\<close>

record topic_doc =
  d_filename :: pystr
  d_title :: pystr
  d_date :: pystr
  d_body :: "pystr list"

definition make_doc :: "pystr \<Rightarrow> pystr list \<Rightarrow> topic_doc" where
  "make_doc current buffer =
     \<lparr>d_filename = sanitize False current @ ustr ''.md'',
      d_title = current,
      d_date = (if length current \<ge> 10 then take 10 current else []),
      d_body = buffer\<rparr>"

definition render_doc :: "topic_doc \<Rightarrow> pystr" where
  "render_doc d =
     ustr ''---'' @ [10] @ ustr ''title: '' @ d_title d @ [10] @ ustr ''date: '' @ d_date d @ [10]
     @ ustr ''---'' @ [10, 10] @ concat (map (\<lambda>ln. ln @ [10]) (d_body d))"

text \<open>
  \<open>flush\<close>: nothing is written and the buffer is kept while \<open>current\<close> is \<open>None\<close>
  or empty; otherwise one document is written and the buffer is cleared. The
  result is the documents written and the new buffer.
\<close>

definition flush :: "pystr option \<Rightarrow> pystr list \<Rightarrow> topic_doc list \<times> pystr list" where
  "flush current buffer =
     (case current of
        None \<Rightarrow> ([], buffer)
      | Some c \<Rightarrow> if c = [] then ([], buffer) else ([make_doc c buffer], []))"

text \<open>
  The loop over the lines of the annotated file (without their newlines) and the
  last \<open>flush\<close>. The result is the documents in the order in which they are
  written; \<open>topic_files\<close> is the directory afterwards, where a later document
  replaces an earlier one of the same file name. (The CSV index that
  \<open>split_topics\<close> writes at the end is not modelled.)
\<close>

fun split_loop :: "pystr option \<Rightarrow> pystr list \<Rightarrow> pystr list \<Rightarrow> topic_doc list" where
  "split_loop current buffer [] = fst (flush current buffer)"
| "split_loop current buffer (line # rest) =
     (if is_marker line
      then fst (flush current buffer)
           @ split_loop (Some (topic_title line)) (snd (flush current buffer)) rest
      else split_loop current (buffer @ [line]) rest)"

definition split_topics :: "pystr list \<Rightarrow> topic_doc list" where
  "split_topics lines = split_loop None [] lines"

definition topic_files :: "topic_doc list \<Rightarrow> (pystr \<rightharpoonup> pystr)" where
  "topic_files docs = foldl (\<lambda>fs d. fs(d_filename d \<mapsto> render_doc d)) Map.empty docs"


section \<open>Month aggregator\<close>

text \<open>
  \<open>safe_int(v)\<close> for a string: \<open>int(v)\<close>, else \<open>int(float(v))\<close>, else 0. For a
  plain decimal numeral (an optional minus sign and at most 4300 ASCII digits)
  \<open>int(v)\<close> is its value, and the model computes it. Every other string
  (surrounding white space, underscores, float syntax) is left to the parameter
  \<open>other\<close>, which returns \<open>None\<close> where both conversions raise.
\<close>

type_synonym int_reader = "pystr \<Rightarrow> int option"

definition is_digit :: "nat \<Rightarrow> bool" where
  "is_digit c \<longleftrightarrow> 48 \<le> c \<and> c \<le> 57"

definition digits_value :: "pystr \<Rightarrow> nat" where
  "digits_value ds = foldl (\<lambda>a c. 10 * a + (c - 48)) 0 ds"

definition plain_decimal :: "pystr \<Rightarrow> int option" where
  "plain_decimal v =
     (case v of
        [] \<Rightarrow> None
      | c # cs \<Rightarrow>
          if c = 45 then
            (if cs \<noteq> [] \<and> list_all is_digit cs \<and> length cs \<le> 4300
             then Some (- int (digits_value cs)) else None)
          else if list_all is_digit v \<and> length v \<le> 4300 then Some (int (digits_value v))
          else None)"

definition safe_int :: "int_reader \<Rightarrow> pystr \<Rightarrow> int" where
  "safe_int other v =
     (case plain_decimal v of
        Some n \<Rightarrow> n
      | None \<Rightarrow> (case other v of Some n \<Rightarrow> n | None \<Rightarrow> 0))"

text \<open>
  \<open>line.split("\t", 1)\<close>: the part before the first tab is \<open>parts[0]\<close>, and a
  line with a tab gives \<open>rest\<close>, the part after it; unpacking a line without a
  tab raises \<open>ValueError\<close>, and the line is skipped.
\<close>

definition has_tab :: "pystr \<Rightarrow> bool" where
  "has_tab line \<longleftrightarrow> 9 \<in> set line"

definition before_tab :: "pystr \<Rightarrow> pystr" where
  "before_tab line = takeWhile (\<lambda>c. c \<noteq> 9) line"

definition after_tab :: "pystr \<Rightarrow> pystr" where
  "after_tab line = tl (dropWhile (\<lambda>c. c \<noteq> 9) line)"

definition key_fn :: "int_reader \<Rightarrow> pystr \<Rightarrow> int" where
  "key_fn other line = safe_int other (before_tab line)"

text \<open>The month key of a day file, and \<open>f"^msg-{n:06d}"\<close>.\<close>

definition month_key_of :: "pystr \<Rightarrow> pystr" where
  "month_key_of day_file =
     (let day = remove_all (ustr ''.raw'') day_file
      in if day = ustr ''unknown'' then ustr ''unknown'' else take 7 day)"

definition anchor :: "nat \<Rightarrow> pystr" where
  "anchor n = ustr ''^msg-'' @ zero_pad 6 (decimal n)"

text \<open>
  A line appended to a month file: \<open>l_text\<close> is the text written; \<open>l_ts\<close> and
  \<open>l_anchor\<close> record the sort key of the day-file line it comes from and the
  value of the counter in its anchor.
\<close>

record month_line =
  l_ts :: int
  l_anchor :: nat
  l_text :: pystr

definition render_line :: "int_reader \<Rightarrow> nat \<Rightarrow> pystr \<Rightarrow> month_line" where
  "render_line other n line =
     \<lparr>l_ts = key_fn other line, l_anchor = n,
      l_text = strip (after_tab line) @ ustr '' '' @ anchor n @ [10]\<rparr>"

text \<open>
  The loop over the sorted lines of one day file, from the counter value \<open>n\<close>:
  the new counter value and the lines appended.
\<close>

fun write_lines :: "int_reader \<Rightarrow> nat \<Rightarrow> pystr list \<Rightarrow> nat \<times> month_line list" where
  "write_lines other n [] = (n, [])"
| "write_lines other n (line # rest) =
     (if \<not> has_tab line then write_lines other n rest
      else
        (case write_lines other (Suc n) rest of
           (n', out) \<Rightarrow> (n', render_line other (Suc n) line # out)))"

text \<open>
  The \<open>by_day\<close> directory is a list of files, each with its name and its lines as
  \<open>readlines\<close> returns them. \<open>write_day\<close> handles one day file: the counter of
  its month starts at 0 when the month has none yet, and \<open>list.sort\<close> is stable,
  as \<open>sort_key\<close> is.
\<close>

type_synonym day_dir = "(pystr \<times> pystr list) list"

definition write_day :: "int_reader \<Rightarrow> (pystr \<rightharpoonup> nat) \<Rightarrow> pystr \<Rightarrow> pystr list \<Rightarrow> nat \<times> month_line list" where
  "write_day other month_counts mkey lines =
     write_lines other (case month_counts mkey of None \<Rightarrow> 0 | Some n \<Rightarrow> n)
       (sort_key (key_fn other) lines)"

fun month_loop ::
    "int_reader \<Rightarrow> (pystr \<rightharpoonup> nat) \<Rightarrow> (pystr \<Rightarrow> month_line list) \<Rightarrow> day_dir \<Rightarrow> pystr \<Rightarrow> month_line list" where
  "month_loop other month_counts written [] = written"
| "month_loop other month_counts written ((day_file, lines) # rest) =
     month_loop other
       (month_counts(month_key_of day_file \<mapsto> fst (write_day other month_counts (month_key_of day_file) lines)))
       (written(month_key_of day_file :=
          written (month_key_of day_file) @ snd (write_day other month_counts (month_key_of day_file) lines)))
       rest"

text \<open>
  \<open>sorted([f for f in os.listdir(day_dir) if f.endswith(".raw")])\<close>, and
  \<open>build_month_files\<close>: for each month key the lines that one run appends to the
  month file, in order (into a fresh \<open>by_month\<close> directory these are the file).
  \<open>None\<close> stands for a missing \<open>by_day\<close> directory.
\<close>

definition raw_files :: "day_dir \<Rightarrow> day_dir" where
  "raw_files listing = sort_key fst (filter (\<lambda>(f, lines). suffix (ustr ''.raw'') f) listing)"

definition build_month_files :: "int_reader \<Rightarrow> day_dir option \<Rightarrow> pystr \<Rightarrow> month_line list" where
  "build_month_files other by_day =
     (case by_day of
        None \<Rightarrow> (\<lambda>mkey. [])
      | Some listing \<Rightarrow> month_loop other Map.empty (\<lambda>mkey. []) (raw_files listing))"


section \<open>Conversation extraction and day records\<close>

text \<open>A conversation as \<open>parse_openai_conversations\<close> yields it.\<close>

record 'f conversation =
  c_title :: "'f json"
  c_messages :: "'f nmsg list"

text \<open>The \<open>conversations\<close> list that \<open>parse_openai_conversations\<close> reads from \<open>obj\<close>.\<close>

definition conversations_of :: "'f float_ops \<Rightarrow> 'f json \<Rightarrow> 'f json list" where
  "conversations_of fl obj =
     (case obj of
        JList xs \<Rightarrow> xs
      | JDict d \<Rightarrow>
          (case dict_get d (ustr ''conversations'') JNull of
             JList xs \<Rightarrow> xs
           | _ \<Rightarrow> if truthy fl (dict_get d (ustr ''mapping'') JNull) then [obj] else [])
      | _ \<Rightarrow> [])"

text \<open>
  \<open>[normalize_message(m) for m in raw_msgs]\<close>, and the \<open>messages\<close> of one
  conversation: the linearization when the \<open>mapping\<close> is truthy, else every
  raw message of \<open>messages\<close>, normalized. A conversation that is no dict has no
  \<open>get\<close>.
\<close>

fun normalize_all :: "'f float_ops \<Rightarrow> 'f json list \<Rightarrow> py_error + 'f nmsg list" where
  "normalize_all fl [] = Inr []"
| "normalize_all fl (m # rest) =
     (case normalize_message fl m of
        Inl e \<Rightarrow> Inl e
      | Inr n \<Rightarrow> (case normalize_all fl rest of Inl e \<Rightarrow> Inl e | Inr ns \<Rightarrow> Inr (n # ns)))"

definition conversation_messages :: "'f float_ops \<Rightarrow> 'f json \<Rightarrow> py_error + 'f nmsg list" where
  "conversation_messages fl conv =
     (case conv of
        JDict cd \<Rightarrow>
          if truthy fl (dict_get cd (ustr ''mapping'') JNull) then linearize_conversation fl conv
          else
            (case py_iter (py_or fl (dict_get cd (ustr ''messages'') (JList [])) (JList [])) of
               Inl e \<Rightarrow> Inl e
             | Inr raw_msgs \<Rightarrow> normalize_all fl raw_msgs)
      | _ \<Rightarrow> Inl AttributeError)"

definition conversation_title :: "'f float_ops \<Rightarrow> 'f json \<Rightarrow> 'f json" where
  "conversation_title fl conv =
     (case conv of
        JDict cd \<Rightarrow> py_or fl (dict_get cd (ustr ''title'') JNull) (JStr (ustr ''Conversation''))
      | _ \<Rightarrow> JNull)"

text \<open>
  The generator: the conversations it yields, and the exception that ends it, if
  one does. A conversation without messages is not yielded.
\<close>

fun yield_conversations ::
    "'f float_ops \<Rightarrow> 'f json list \<Rightarrow> 'f conversation list \<times> py_error option" where
  "yield_conversations fl [] = ([], None)"
| "yield_conversations fl (conv # rest) =
     (case conversation_messages fl conv of
        Inl e \<Rightarrow> ([], Some e)
      | Inr messages \<Rightarrow>
          (case yield_conversations fl rest of
             (ys, err) \<Rightarrow>
               ((if messages \<noteq> []
                 then [\<lparr>c_title = conversation_title fl conv, c_messages = messages\<rparr>]
                 else []) @ ys, err)))"

definition parse_openai_conversations ::
    "'f float_ops \<Rightarrow> 'f json \<Rightarrow> 'f conversation list \<times> py_error option" where
  "parse_openai_conversations fl obj = yield_conversations fl (conversations_of fl obj)"

text \<open>
  \<open>write_by_day_raw\<close> appends one line per message to the day file of its
  timestamp. \<open>datetime.fromtimestamp\<close> reads the local time zone and raises for a
  timestamp out of its range: \<open>local_time\<close> gives the day key and the ISO
  rendering of a timestamp that is not 0, or the exception. \<open>show_value\<close> is
  \<open>str\<close> of a role that is no string.
\<close>

record 'f day_env =
  local_time :: "int \<Rightarrow> py_error + pystr \<times> pystr"
  show_value :: "'f json \<Rightarrow> pystr"

text \<open>\<open>f"{ts}"\<close> for an integer.\<close>

definition show_int :: "int \<Rightarrow> pystr" where
  "show_int n = (if n < 0 then 45 # decimal (nat (- n)) else decimal (nat n))"

definition show_role :: "'f day_env \<Rightarrow> 'f json \<Rightarrow> pystr" where
  "show_role env r = (case r of JStr s \<Rightarrow> s | _ \<Rightarrow> show_value env r)"

text \<open>
  The day key and the line of a message:
  \<open>f"{ts}\t[{to_iso(ts)}] {m.get('role')}: {content}\n"\<close>, with the newlines of
  the content replaced by spaces.
\<close>

definition day_line :: "'f day_env \<Rightarrow> 'f nmsg \<Rightarrow> py_error + pystr \<times> pystr" where
  "day_line env m =
     (if m_ts m = 0 then
        Inr (ustr ''unknown'',
             show_int (m_ts m) @ [9] @ ustr ''[] '' @ show_role env (m_role m) @ ustr '': ''
               @ map (\<lambda>c. if c = 10 then 32 else c) (m_content m) @ [10])
      else
        (case local_time env (m_ts m) of
           Inl e \<Rightarrow> Inl e
         | Inr (day, iso_ts) \<Rightarrow>
             Inr (day,
                  show_int (m_ts m) @ [9] @ ustr ''['' @ iso_ts @ ustr ''] '' @ show_role env (m_role m)
                    @ ustr '': '' @ map (\<lambda>c. if c = 10 then 32 else c) (m_content m) @ [10])))"

text \<open>
  The loop over the messages, which skips a message with empty content: the
  (day key, line) pairs appended, in order, and the exception that ends the loop,
  if one does.
\<close>

fun write_messages :: "'f day_env \<Rightarrow> 'f nmsg list \<Rightarrow> (pystr \<times> pystr) list \<times> py_error option" where
  "write_messages env [] = ([], None)"
| "write_messages env (m # rest) =
     (if m_content m = [] then write_messages env rest
      else
        (case day_line env m of
           Inl e \<Rightarrow> ([], Some e)
         | Inr a \<Rightarrow> (case write_messages env rest of (as, err) \<Rightarrow> (a # as, err))))"

definition write_by_day_raw ::
    "'f day_env \<Rightarrow> 'f conversation list \<Rightarrow> (pystr \<times> pystr) list \<times> py_error option" where
  "write_by_day_raw env convs = write_messages env (concat (map c_messages convs))"

section \<open>Streaming value source\<close>

text \<open>
  \<open>iter_json_array\<close> reads the text of the file in chunks of \<open>CHUNK_SIZE\<close>
  characters; the model holds the text that is not yet read as \<open>rest\<close>, so that
  \<open>f.read(CHUNK_SIZE)\<close> is \<open>take CHUNK_SIZE rest\<close>, empty at the end of the file.
  The generator ends by returning (\<open>Finished\<close>) or by raising
  \<open>json.JSONDecodeError\<close>. \<open>decoder.raw_decode\<close> is a parameter: the decoded
  value and the index where it ends, or \<open>None\<close> when it raises.
\<close>

datatype stream_end = Finished | JSONDecodeError

type_synonym 'f decoder = "pystr \<Rightarrow> ('f json \<times> nat) option"

definition CHUNK_SIZE :: nat where
  "CHUNK_SIZE = 1024 * 1024"

text \<open>
  The first loop, which looks for the first \<open>[\<close> (code point 91): \<open>None\<close> when
  the file ends first and the generator returns, otherwise the buffer after the
  bracket and the rest of the file.
\<close>

function find_array_start :: "pystr \<Rightarrow> pystr \<Rightarrow> (pystr \<times> pystr) option" where
  "find_array_start buf rest =
     (if take CHUNK_SIZE rest = [] then None
      else if 91 \<in> set (buf @ take CHUNK_SIZE rest)
      then Some (tl (dropWhile (\<lambda>c. c \<noteq> 91) (buf @ take CHUNK_SIZE rest)), drop CHUNK_SIZE rest)
      else find_array_start (buf @ take CHUNK_SIZE rest) (drop CHUNK_SIZE rest))"
  by pat_completeness auto
termination
  by (relation "measure (\<lambda>(buf, rest). length rest)") (auto simp: CHUNK_SIZE_def)

declare find_array_start.simps [simp del]

text \<open>
  The second loop. It skips the characters of \<open>" \t\r\n,"\<close>, ends at a \<open>]\<close>
  (code point 93), and decodes one value after the other. The result is the list of
  the values yielded and the way the generator ends; it is \<open>None\<close> when the loop
  does not end, which a decoder that consumes nothing would cause.
\<close>

definition is_separator :: "nat \<Rightarrow> bool" where
  "is_separator c \<longleftrightarrow> c = 32 \<or> c = 9 \<or> c = 13 \<or> c = 10 \<or> c = 44"

partial_function (option) array_loop ::
    "'f decoder \<Rightarrow> pystr \<Rightarrow> pystr \<Rightarrow> ('f json list \<times> stream_end) option" where
  "array_loop raw_decode buf rest =
     (if dropWhile is_separator buf = [] then
        (if take CHUNK_SIZE rest = [] then Some ([], Finished)
         else array_loop raw_decode (take CHUNK_SIZE rest) (drop CHUNK_SIZE rest))
      else if hd (dropWhile is_separator buf) = 93 then Some ([], Finished)
      else
        (case raw_decode (dropWhile is_separator buf) of
           None \<Rightarrow>
             if take CHUNK_SIZE rest = [] then Some ([], JSONDecodeError)
             else array_loop raw_decode (dropWhile is_separator buf @ take CHUNK_SIZE rest)
                    (drop CHUNK_SIZE rest)
         | Some (obj, idx) \<Rightarrow>
             Option.bind (array_loop raw_decode (drop idx (dropWhile is_separator buf)) rest)
               (\<lambda>(ys, e). Some (obj # ys, e))))"

definition iter_json_array :: "'f decoder \<Rightarrow> pystr \<Rightarrow> ('f json list \<times> stream_end) option" where
  "iter_json_array raw_decode content =
     (case find_array_start [] content of
        None \<Rightarrow> Some ([], Finished)
      | Some (buf, rest) \<Rightarrow> array_loop raw_decode buf rest)"

section \<open>Predicates of the statements\<close>

text \<open>
  The three reasons for which the walk towards the root stops at \<open>node_id\<close>: it is
  absent (falsy), it was already visited, or it is no key of the mapping.
\<close>

definition walk_stops :: "'f float_ops \<Rightarrow> 'f pydict \<Rightarrow> pystr set \<Rightarrow> 'f json \<Rightarrow> bool" where
  "walk_stops fl mp seen node_id \<longleftrightarrow>
     \<not> truthy fl node_id \<or> py_in node_id seen = Inr True
       \<or> py_in node_id (set (dict_keys mp)) = Inr False"

text \<open>
  A node as the export format declares it: a dict (or a falsy value, read as \<open>{}\<close>)
  whose \<open>parent\<close> is \<open>None\<close> or a string.
\<close>

definition typed_node :: "'f float_ops \<Rightarrow> 'f json \<Rightarrow> bool" where
  "typed_node fl node =
     (case py_or fl node (JDict []) of
        JDict d \<Rightarrow> (case dict_get d (ustr ''parent'') JNull of JNull \<Rightarrow> True | JStr s \<Rightarrow> True | _ \<Rightarrow> False)
      | _ \<Rightarrow> False)"

text \<open>
  The value of \<open>last_ts\<close> when the loop of \<open>detect_topic_boundaries\<close> reaches line
  \<open>i\<close>: the last timestamp before it that was parsed and is not 0.
\<close>

definition ts_before :: "ts_parser \<Rightarrow> int option \<Rightarrow> pystr list \<Rightarrow> nat \<Rightarrow> int option" where
  "ts_before parse_ts last_ts lines i =
     foldl (\<lambda>prev line. next_last_ts prev (parse_ts line)) last_ts (take i lines)"


text \<open>A \<open>[TOPIC_START]\<close> line with a title that is not empty.\<close>

definition titled_marker :: "pystr \<Rightarrow> bool" where
  "titled_marker line \<longleftrightarrow> is_marker line \<and> topic_title line \<noteq> []"

text \<open>
  The lines of a day file that are written, in the order in which they are written;
  the day files of a month, in the order in which they are read; and for each of
  them the timestamps of its written lines.
\<close>

definition written_lines :: "int_reader \<Rightarrow> pystr list \<Rightarrow> pystr list" where
  "written_lines other lines = filter has_tab (sort_key (key_fn other) lines)"

definition month_days :: "pystr \<Rightarrow> day_dir \<Rightarrow> day_dir" where
  "month_days mkey listing = filter (\<lambda>(f, lines). month_key_of f = mkey) (raw_files listing)"

definition day_chunks :: "int_reader \<Rightarrow> pystr \<Rightarrow> day_dir \<Rightarrow> int list list" where
  "day_chunks other mkey listing =
     map (\<lambda>(f, lines). map (key_fn other) (written_lines other lines)) (month_days mkey listing)"

text \<open>No timestamp of a chunk is greater than a timestamp of a later chunk.\<close>

fun chunks_in_order :: "int list list \<Rightarrow> bool" where
  "chunks_in_order [] = True"
| "chunks_in_order (c # cs) = ((\<forall>x \<in> set c. \<forall>y \<in> set (concat cs). x \<le> y) \<and> chunks_in_order cs)"

text \<open>The written lines of the files of a month, file after file.\<close>

definition merged_lines :: "int_reader \<Rightarrow> pystr \<Rightarrow> day_dir \<Rightarrow> pystr list" where
  "merged_lines other mkey files =
     concat (map (\<lambda>(f, lines). written_lines other lines)
       (filter (\<lambda>(f, lines). month_key_of f = mkey) files))"

text \<open>A conversation in the branching form, and a message with content.\<close>

definition has_mapping :: "'f float_ops \<Rightarrow> 'f json \<Rightarrow> bool" where
  "has_mapping fl conv = (case conv of JDict cd \<Rightarrow> truthy fl (dict_get cd (ustr ''mapping'') JNull) | _ \<Rightarrow> False)"

definition nonempty_content :: "'f nmsg \<Rightarrow> bool" where
  "nonempty_content m \<longleftrightarrow> m_content m \<noteq> []"

section \<open>Example values\<close>

text \<open>
  The closed examples below hold no float, so they are evaluated with float
  operations that are never called.
\<close>

definition no_floats :: "unit float_ops" where
  "no_floats = \<lparr>f_is_zero = (\<lambda>_. False), f_of_int = (\<lambda>_. None), f_of_str = (\<lambda>_. None),
     f_gt_1e12 = (\<lambda>_. False), f_div_1000 = (\<lambda>x. x), f_to_int = (\<lambda>_. Inl ValueError)\<rparr>"



text \<open>A mapping whose two nodes are each other's parent, with \<open>current_node = "a"\<close>.\<close>

definition ex_cycle :: "unit pydict" where
  "ex_cycle =
     [(ustr ''a'', JDict [(ustr ''parent'', JStr (ustr ''b''))]),
      (ustr ''b'', JDict [(ustr ''parent'', JStr (ustr ''a''))])]"

definition ex_cycle_conv :: "unit pydict" where
  "ex_cycle_conv = [(ustr ''current_node'', JStr (ustr ''a'')), (ustr ''mapping'', JDict ex_cycle)]"

text \<open>
  A conversation with a root \<open>r\<close>, its child \<open>a\<close> and the two branches \<open>b\<close> and \<open>c\<close>
  of \<open>a\<close>; \<open>c\<close> holds the latest message.
\<close>

definition ex_tree :: "unit pydict" where
  "ex_tree =
     [(ustr ''r'', JDict [(ustr ''parent'', JNull), (ustr ''children'', JList [JStr (ustr ''a'')])]),
      (ustr ''a'', JDict [(ustr ''parent'', JStr (ustr ''r'')),
                          (ustr ''children'', JList [JStr (ustr ''b''), JStr (ustr ''c'')]),
                          (ustr ''message'', JDict [(ustr ''content'', JStr (ustr ''hi'')), (ustr ''create_time'', JInt 1)])]),
      (ustr ''b'', JDict [(ustr ''parent'', JStr (ustr ''a'')), (ustr ''children'', JList []),
                          (ustr ''message'', JDict [(ustr ''content'', JStr (ustr ''x'')), (ustr ''create_time'', JInt 2)])]),
      (ustr ''c'', JDict [(ustr ''parent'', JStr (ustr ''a'')), (ustr ''children'', JList []),
                          (ustr ''message'', JDict [(ustr ''content'', JStr (ustr ''y'')), (ustr ''create_time'', JInt 3)])])]"

definition ex_tree_conv :: "pystr \<Rightarrow> unit pydict" where
  "ex_tree_conv cur = [(ustr ''current_node'', JStr cur), (ustr ''mapping'', JDict ex_tree)]"

definition ex_msg :: "string \<Rightarrow> int \<Rightarrow> unit nmsg" where
  "ex_msg c t = \<lparr>m_role = JStr (ustr ''assistant''), m_content = ustr c, m_ts = t\<rparr>"





text \<open>An annotated file with one line before its first \<open>[TOPIC_START]\<close> line.\<close>

definition ex_topics_file :: "pystr list" where
  "ex_topics_file =
     [ustr ''intro'', ustr ''[TOPIC_START] 2026-01-01 Topic-001'', ustr ''a'',
      ustr ''[TOPIC_START] 2026-01-02 Topic-002'', ustr ''b'']"

text \<open>
  Two \<open>by_day\<close> directories. In the first the line of \<open>2026-01-10.raw\<close> has a
  later timestamp than the line of \<open>2026-01-11.raw\<close>; in the second the day file
  \<open>2026-01-10.raw\<close> holds its two lines out of order. \<open>no_other_numbers\<close> reads no
  string but the plain decimal numerals.
\<close>

definition ex_day_dir :: day_dir where
  "ex_day_dir =
     [(ustr ''2026-01-11.raw'', [ustr ''1000'' @ [9] @ ustr ''[1970-01-01 00:16:40] user: A'' @ [10]]),
      (ustr ''2026-01-10.raw'', [ustr ''90000'' @ [9] @ ustr ''[1970-01-02 01:00:00] user: B'' @ [10]])]"

definition no_other_numbers :: int_reader where
  "no_other_numbers v = None"

definition ex_day_dir_sorted :: day_dir where
  "ex_day_dir_sorted =
     [(ustr ''2026-01-11.raw'', [ustr ''90000'' @ [9] @ ustr ''[1970-01-02 01:00:00] user: C'' @ [10]]),
      (ustr ''notes.txt'', [ustr ''remember'' @ [10]]),
      (ustr ''2026-01-10.raw'',
         [ustr ''2000'' @ [9] @ ustr ''[1970-01-01 00:33:20] assistant: B'' @ [10],
          ustr ''1000'' @ [9] @ ustr ''[1970-01-01 00:16:40] user: A'' @ [10]])]"

text \<open>
  The flat conversation \<open>[{"messages": [{"content": "  "}, {"content": "hi"}]}]\<close>,
  the conversation that is yielded for it, and a day environment whose clock is
  never read (the messages have no timestamp).
\<close>

definition ex_flat_msgs :: "unit json list" where
  "ex_flat_msgs =
     [JDict [(ustr ''content'', JStr (ustr ''  ''))], JDict [(ustr ''content'', JStr (ustr ''hi''))]]"

definition ex_flat :: "unit json" where
  "ex_flat = JList [JDict [(ustr ''messages'', JList ex_flat_msgs)]]"

definition ex_flat_conv :: "unit conversation" where
  "ex_flat_conv = \<lparr>c_title = JStr (ustr ''Conversation''), c_messages = [ex_msg [] 0, ex_msg ''hi'' 0]\<rparr>"

definition no_clock :: "unit day_env" where
  "no_clock = \<lparr>local_time = (\<lambda>ts. Inl OverflowError), show_value = (\<lambda>v. [])\<rparr>"

text \<open>
  A file that holds the single conversation object
  \<open>{"mapping": {"a": {"message": {"content": "hi"}}}}\<close> (code point 34 is the
  double quote), and the value that \<open>json.load\<close> reads from it.
\<close>

definition quoted :: "string \<Rightarrow> pystr" where
  "quoted s = [34] @ ustr s @ [34]"

definition ex_object_file :: pystr where
  "ex_object_file =
     ustr ''{'' @ quoted ''mapping'' @ ustr '': {'' @ quoted ''a'' @ ustr '': {'' @ quoted ''message''
       @ ustr '': {'' @ quoted ''content'' @ ustr '': '' @ quoted ''hi'' @ ustr ''}}}}''"

definition ex_object :: "unit json" where
  "ex_object =
     JDict [(ustr ''mapping'',
       JDict [(ustr ''a'', JDict [(ustr ''message'', JDict [(ustr ''content'', JStr (ustr ''hi''))])])])]"





text \<open>
  A branching conversation whose active path is the root \<open>r\<close>, the node \<open>a\<close> with a
  message of two spaces, and the current node \<open>b\<close> with the message \<open>hi\<close>; the
  conversation that is yielded for it; the dict of the flat conversation above;
  and an export that holds both conversations.
\<close>

definition ex_blank :: "unit pydict" where
  "ex_blank =
     [(ustr ''r'', JDict [(ustr ''parent'', JNull), (ustr ''children'', JList [JStr (ustr ''a'')])]),
      (ustr ''a'', JDict [(ustr ''parent'', JStr (ustr ''r'')), (ustr ''children'', JList [JStr (ustr ''b'')]),
                          (ustr ''message'', JDict [(ustr ''content'', JStr (ustr ''  ''))])]),
      (ustr ''b'', JDict [(ustr ''parent'', JStr (ustr ''a'')), (ustr ''children'', JList []),
                          (ustr ''message'', JDict [(ustr ''content'', JStr (ustr ''hi''))])])]"

definition ex_blank_conv :: "unit pydict" where
  "ex_blank_conv = [(ustr ''current_node'', JStr (ustr ''b'')), (ustr ''mapping'', JDict ex_blank)]"

definition ex_blank_yield :: "unit conversation" where
  "ex_blank_yield = \<lparr>c_title = JStr (ustr ''Conversation''), c_messages = [ex_msg ''hi'' 0]\<rparr>"

definition ex_flat_dict :: "unit pydict" where
  "ex_flat_dict = [(ustr ''messages'', JList ex_flat_msgs)]"

definition ex_mixed :: "unit json" where
  "ex_mixed = JList [JDict ex_blank_conv, JDict ex_flat_dict]"

section \<open>Properties of the message normalizer\<close>

lemmas eval_defs = normalize_message_def message_content_def message_raw_ts_def dict_get_def
  has_key_def dict_keys_def py_or_def ustr_def strip_def is_space_def






text \<open>
  Claim C2 (the normalizer never raises) does not hold of the code. The
  \<open>parts\<close> branch keeps only the strings of the list, but the \<open>text\<close> branch takes
  the field as it is: for the message \<open>{"content": {"text": 5}}\<close> the final
  \<open>(content or "").strip()\<close> is called on the integer 5 and raises
  \<open>AttributeError\<close>.
\<close>

theorem normalize_message_raises_on_numeric_text:
  "normalize_message fl (JDict [(ustr ''content'', JDict [(ustr ''text'', JInt 5)])])
     = Inl AttributeError"
  by (simp add: eval_defs)

section \<open>Properties of the conversation linearizer\<close>

subsection \<open>The active path\<close>

lemma walk_up_spec:
  "walk_up fl mp seen ids node_id = Inr out \<Longrightarrow>
   \<exists>new. out = ids @ new \<and> distinct new \<and> set new \<inter> seen = {} \<and> set new \<subseteq> set (dict_keys mp)
      \<and> (new \<noteq> [] \<longrightarrow> node_id = JStr (hd new))
      \<and> (\<forall>i. Suc i < length new \<longrightarrow> node_parent fl mp (new ! i) = Inr (JStr (new ! Suc i)))
      \<and> (new = [] \<longrightarrow> walk_stops fl mp seen node_id)
      \<and> (new \<noteq> [] \<longrightarrow> (\<exists>p. node_parent fl mp (last new) = Inr p \<and> walk_stops fl mp (seen \<union> set new) p))"
proof (induction fl mp seen ids node_id arbitrary: out rule: walk_up.induct)
  case (1 fl mp seen ids node_id)
  show ?case
  proof (cases "truthy fl node_id")
    case False
    with "1.prems" have "out = ids" by (simp add: walk_up.simps)
    with False show ?thesis by (simp add: walk_stops_def)
  next
    case True
    note t = this
    show ?thesis
    proof (cases node_id)
      case (JStr s)
      show ?thesis
      proof (cases "s \<in> seen \<or> \<not> has_key mp s")
        case True
        with "1.prems" t JStr have "out = ids" by (simp add: walk_up.simps)
        with True JStr show ?thesis by (auto simp: walk_stops_def has_key_def)
      next
        case False
        with "1.prems" t JStr obtain p where p: "node_parent fl mp s = Inr p"
          and w: "walk_up fl mp (insert s seen) (ids @ [s]) p = Inr out"
          by (auto simp: walk_up.simps split: sum.splits)
        from t have t': "\<not> \<not> truthy fl node_id" by simp
        from "1.IH" [OF t' JStr False p w] obtain new where
          n1: "out = (ids @ [s]) @ new" and n2: "distinct new" and n3: "set new \<inter> insert s seen = {}"
          and n4: "set new \<subseteq> set (dict_keys mp)"
          and n5: "new \<noteq> [] \<longrightarrow> p = JStr (hd new)"
          and n6: "\<forall>i. Suc i < length new \<longrightarrow> node_parent fl mp (new ! i) = Inr (JStr (new ! Suc i))"
          and n7: "new = [] \<longrightarrow> walk_stops fl mp (insert s seen) p"
          and n8: "new \<noteq> [] \<longrightarrow> (\<exists>q. node_parent fl mp (last new) = Inr q \<and> walk_stops fl mp (insert s seen \<union> set new) q)"
          by blast
        let ?new = "s # new"
        have a: "out = ids @ ?new" using n1 by simp
        have b: "distinct ?new" using n2 n3 by auto
        have c: "set ?new \<inter> seen = {}" using n3 False by auto
        have d: "set ?new \<subseteq> set (dict_keys mp)" using n4 False by (auto simp: has_key_def)
        have e: "node_id = JStr (hd ?new)" using JStr by simp
        have f: "\<forall>i. Suc i < length ?new \<longrightarrow> node_parent fl mp (?new ! i) = Inr (JStr (?new ! Suc i))"
        proof (intro allI impI)
          fix i assume i: "Suc i < length ?new"
          show "node_parent fl mp (?new ! i) = Inr (JStr (?new ! Suc i))"
          proof (cases i)
            case 0
            with i have "new \<noteq> []" by auto
            with n5 p 0 show ?thesis by (simp add: hd_conv_nth)
          next
            case (Suc j)
            with i n6 show ?thesis by simp
          qed
        qed
        have g: "\<exists>q. node_parent fl mp (last ?new) = Inr q \<and> walk_stops fl mp (seen \<union> set ?new) q"
        proof (cases "new = []")
          case True
          with n7 p show ?thesis by simp
        next
          case False
          with n8 show ?thesis by simp
        qed
        from a b c d e f g show ?thesis by blast
      qed
    qed (use "1.prems" t in \<open>auto simp: walk_up.simps walk_stops_def\<close>)
  qed
qed

lemma walk_up_total:
  assumes "list_all (typed_node fl) (map snd mp)"
    and "node_id = JNull \<or> (\<exists>s. node_id = JStr s)"
  shows "\<exists>out. walk_up fl mp seen ids node_id = Inr out"
  using assms
proof (induction fl mp seen ids node_id rule: walk_up.induct)
  case (1 fl mp seen ids node_id)
  show ?case
  proof (cases "truthy fl node_id")
    case False
    then show ?thesis by (simp add: walk_up.simps)
  next
    case True
    with "1.prems"(2) obtain s where s: "node_id = JStr s" by auto
    show ?thesis
    proof (cases "s \<in> seen \<or> \<not> has_key mp s")
      case True
      with s show ?thesis by (simp add: walk_up.simps)
    next
      case False
      then have "map_of mp s \<noteq> None"
        by (simp add: has_key_def dict_keys_def map_of_eq_None_iff)
      then obtain v where v: "map_of mp s = Some v" by auto
      then have "(s, v) \<in> set mp" by (rule map_of_SomeD)
      with "1.prems"(1) have "typed_node fl v" by (force simp: list_all_iff)
      with v obtain p where p: "node_parent fl mp s = Inr p" and p': "p = JNull \<or> (\<exists>s'. p = JStr s')"
        by (auto simp: typed_node_def node_parent_def dict_get_def split: json.splits)
      from True have t': "\<not> \<not> truthy fl node_id" by simp
      from "1.IH" [OF t' s False p "1.prems"(1) p']
      show ?thesis using True s False p by (simp add: walk_up.simps)
    qed
  qed
qed


text \<open>
  Claim C6. \<open>walk_up\<close> is a total function (its termination proof measures the keys
  of the mapping that are not yet in \<open>seen\<close>), so the extraction ends on every
  mapping, cyclic or not. Whenever it returns a path, the path holds no identifier
  twice and only keys of the mapping; it ends with the current node, each node is
  followed by the node it names as parent, and the parent of the first node is a
  value at which the walk stops: absent, already on the path, or no key of the
  mapping. On a mapping of typed nodes with a current node that is a string or
  absent it does return a path. (An unhashable parent or a node that is no dict
  ends the walk with an exception.)
\<close>

theorem active_path_walk:
  "(\<forall>ids. collect_path_from_current_node fl conv mp = Inr ids \<longrightarrow>
      distinct ids \<and> set ids \<subseteq> set (dict_keys mp)
      \<and> (ids \<noteq> [] \<longrightarrow> dict_get conv (ustr ''current_node'') JNull = JStr (last ids))
      \<and> (\<forall>i. Suc i < length ids \<longrightarrow> node_parent fl mp (ids ! Suc i) = Inr (JStr (ids ! i)))
      \<and> (ids \<noteq> [] \<longrightarrow> (\<exists>p. node_parent fl mp (hd ids) = Inr p \<and> walk_stops fl mp (set ids) p)))
   \<and> (list_all (typed_node fl) (map snd mp)
        \<and> (dict_get conv (ustr ''current_node'') JNull = JNull
            \<or> (\<exists>s. dict_get conv (ustr ''current_node'') JNull = JStr s))
      \<longrightarrow> (\<exists>ids. collect_path_from_current_node fl conv mp = Inr ids))"
proof (intro conjI allI impI)
  fix ids
  assume r: "collect_path_from_current_node fl conv mp = Inr ids"
  let ?cur = "dict_get conv (ustr ''current_node'') JNull"
  have "distinct ids \<and> set ids \<subseteq> set (dict_keys mp)
      \<and> (ids \<noteq> [] \<longrightarrow> ?cur = JStr (last ids))
      \<and> (\<forall>i. Suc i < length ids \<longrightarrow> node_parent fl mp (ids ! Suc i) = Inr (JStr (ids ! i)))
      \<and> (ids \<noteq> [] \<longrightarrow> (\<exists>p. node_parent fl mp (hd ids) = Inr p \<and> walk_stops fl mp (set ids) p))"
  proof (cases "ids = []")
    case True
    then show ?thesis by simp
  next
    case False
    with r obtain out where w: "walk_up fl mp {} [] ?cur = Inr out" and o: "ids = rev out"
      by (auto simp: collect_path_from_current_node_def Let_def split: if_splits sum.splits)
    from walk_up_spec [OF w] have
      n2: "distinct out" and n4: "set out \<subseteq> set (dict_keys mp)"
      and n5: "out \<noteq> [] \<longrightarrow> ?cur = JStr (hd out)"
      and n6: "\<forall>i. Suc i < length out \<longrightarrow> node_parent fl mp (out ! i) = Inr (JStr (out ! Suc i))"
      and n8: "out \<noteq> [] \<longrightarrow> (\<exists>q. node_parent fl mp (last out) = Inr q \<and> walk_stops fl mp ({} \<union> set out) q)"
      by auto
    have ne: "out \<noteq> []" using False o by simp
    have c: "\<forall>i. Suc i < length ids \<longrightarrow> node_parent fl mp (ids ! Suc i) = Inr (JStr (ids ! i))"
    proof (intro allI impI)
      fix i assume i: "Suc i < length ids"
      then have l: "Suc i < length out" using o by simp
      let ?j = "length out - Suc (Suc i)"
      have "ids ! Suc i = out ! ?j" using o l by (simp add: rev_nth)
      moreover have "ids ! i = out ! Suc ?j"
      proof -
        have "ids ! i = out ! (length out - Suc i)" using o l by (simp add: rev_nth)
        moreover have "length out - Suc i = Suc ?j" using l by arith
        ultimately show ?thesis by simp
      qed
      moreover have "Suc ?j < length out" using l by arith
      ultimately show "node_parent fl mp (ids ! Suc i) = Inr (JStr (ids ! i))"
        using n6 by simp
    qed
    from n2 n4 n5 n8 ne c o show ?thesis
      by (simp add: hd_rev last_rev)
  qed
  then show "distinct ids" and "set ids \<subseteq> set (dict_keys mp)"
    and "\<And>i. Suc i < length ids \<Longrightarrow> node_parent fl mp (ids ! Suc i) = Inr (JStr (ids ! i))"
    by blast+
  { assume "ids \<noteq> []"
    with \<open>distinct ids \<and> _\<close> show "?cur = JStr (last ids)"
      and "\<exists>p. node_parent fl mp (hd ids) = Inr p \<and> walk_stops fl mp (set ids) p" by blast+ }
next
  let ?cur = "dict_get conv (ustr ''current_node'') JNull"
  assume a: "list_all (typed_node fl) (map snd mp) \<and> (?cur = JNull \<or> (\<exists>s. ?cur = JStr s))"
  then have "\<exists>out. walk_up fl mp {} [] ?cur = Inr out"
    by (intro walk_up_total) auto
  then obtain out where "walk_up fl mp {} [] ?cur = Inr out" ..
  with a show "\<exists>ids. collect_path_from_current_node fl conv mp = Inr ids"
    by (auto simp: collect_path_from_current_node_def Let_def)
qed


lemmas walk_eval = collect_path_from_current_node_def walk_up.simps node_parent_def dict_get_def
  has_key_def dict_keys_def py_or_def ustr_def

theorem active_path_walk_witness:
  "list_all (typed_node no_floats) (map snd ex_cycle)
   \<and> collect_path_from_current_node no_floats ex_cycle_conv ex_cycle = Inr [ustr ''b'', ustr ''a'']
   \<and> distinct [ustr ''b'', ustr ''a'']
   \<and> dict_get ex_cycle_conv (ustr ''current_node'') JNull = JStr (last [ustr ''b'', ustr ''a''])
   \<and> node_parent no_floats ex_cycle ([ustr ''b'', ustr ''a''] ! Suc 0) = Inr (JStr ([ustr ''b'', ustr ''a''] ! 0))
   \<and> node_parent no_floats ex_cycle (hd [ustr ''b'', ustr ''a'']) = Inr (JStr (ustr ''a''))
   \<and> walk_stops no_floats ex_cycle (set [ustr ''b'', ustr ''a'']) (JStr (ustr ''a''))"
proof -
  have t: "list_all (typed_node no_floats) (map snd ex_cycle)"
    by (simp add: ex_cycle_def typed_node_def py_or_def dict_get_def ustr_def)
  have e: "collect_path_from_current_node no_floats ex_cycle_conv ex_cycle = Inr [ustr ''b'', ustr ''a'']"
    by (simp add: walk_eval ex_cycle_def ex_cycle_conv_def)
  have p: "node_parent no_floats ex_cycle (hd [ustr ''b'', ustr ''a'']) = Inr (JStr (ustr ''a''))"
    by (simp add: walk_eval ex_cycle_def)
  from active_path_walk [of no_floats ex_cycle_conv ex_cycle] e
  have "distinct [ustr ''b'', ustr ''a'']
      \<and> dict_get ex_cycle_conv (ustr ''current_node'') JNull = JStr (last [ustr ''b'', ustr ''a''])
      \<and> node_parent no_floats ex_cycle ([ustr ''b'', ustr ''a''] ! Suc 0) = Inr (JStr ([ustr ''b'', ustr ''a''] ! 0))
      \<and> (\<exists>q. node_parent no_floats ex_cycle (hd [ustr ''b'', ustr ''a'']) = Inr q
             \<and> walk_stops no_floats ex_cycle (set [ustr ''b'', ustr ''a'']) q)"
    by (auto simp del: distinct.simps nth_Cons_0 nth_Cons_Suc list.sel last.simps)
  with p t e show ?thesis by auto
qed

subsection \<open>Reconciliation of the two candidates\<close>

lemma linearize_dict:
  assumes "dict_get cd (ustr ''mapping'') JNull = JDict mp"
    and "active_path_candidate fl cd mp = Inr primary"
    and "latest_branch_candidate fl mp = Inr fallback"
  shows "linearize_conversation fl (JDict cd) =
     Inr (if primary = [] then fallback else if length primary < length fallback then fallback else primary)"
proof -
  have cd: "cd \<noteq> []" using assms(1) by (auto simp: dict_get_def)
  show ?thesis
  proof (cases "mp = []")
    case True
    have "collect_path_from_current_node fl cd [] = Inr [] \<or> (\<exists>e. collect_path_from_current_node fl cd [] = Inl e)"
      by (cases "dict_get cd (ustr ''current_node'') JNull")
        (auto simp: collect_path_from_current_node_def Let_def dict_keys_def)
    with assms(2) True have "primary = []"
      by (auto simp: active_path_candidate_def)
    moreover from assms(3) True have "fallback = []"
      by (simp add: latest_branch_candidate_def collect_latest_branch_path_def dict_keys_def)
    ultimately show ?thesis using assms(1) True cd
      by (simp add: linearize_conversation_def)
  next
    case False
    with assms cd show ?thesis
      by (simp add: linearize_conversation_def)
  qed
qed

text \<open>
  Claim C1. For every conversation dict whose \<open>mapping\<close> is a dict and whose two
  candidates are computed: an empty active-path candidate gives the latest-branch
  candidate; a non-empty active-path candidate that is at least as long as the
  latest-branch candidate is returned as it is; a strictly longer latest-branch
  candidate is returned instead.
\<close>

theorem linearize_reconciles:
  assumes "dict_get cd (ustr ''mapping'') JNull = JDict mp"
    and "active_path_candidate fl cd mp = Inr primary"
    and "latest_branch_candidate fl mp = Inr fallback"
  shows "(primary = [] \<longrightarrow> linearize_conversation fl (JDict cd) = Inr fallback)
    \<and> (primary \<noteq> [] \<and> length fallback \<le> length primary
          \<longrightarrow> linearize_conversation fl (JDict cd) = Inr primary)
    \<and> (length primary < length fallback \<longrightarrow> linearize_conversation fl (JDict cd) = Inr fallback)"
  using linearize_dict [OF assms] by auto

lemmas lin_eval = active_path_candidate_def latest_branch_candidate_def collect_latest_branch_path_def
  collect_path_from_current_node_def walk_up.simps descend.simps get_latest_subtree_timestamp.simps
  get_node_message_timestamp_def node_parent_def eval_defs no_floats_def

lemma ex_tree_active_b:
  "active_path_candidate no_floats (ex_tree_conv (ustr ''b'')) ex_tree = Inr [ex_msg ''hi'' 1, ex_msg ''x'' 2]"
  by (simp add: lin_eval ex_tree_def ex_tree_conv_def ex_msg_def)

lemma ex_tree_active_a:
  "active_path_candidate no_floats (ex_tree_conv (ustr ''a'')) ex_tree = Inr [ex_msg ''hi'' 1]"
  by (simp add: lin_eval ex_tree_def ex_tree_conv_def ex_msg_def)

lemma ex_tree_active_none:
  "active_path_candidate no_floats (ex_tree_conv (ustr ''zz'')) ex_tree = Inr []"
  by (simp add: lin_eval ex_tree_def ex_tree_conv_def ex_msg_def)

lemma ex_tree_latest:
  "latest_branch_candidate no_floats ex_tree = Inr [ex_msg ''hi'' 1, ex_msg ''y'' 3]"
  by (simp add: lin_eval ex_tree_def ex_msg_def)

lemma ex_tree_mapping: "dict_get (ex_tree_conv cur) (ustr ''mapping'') JNull = JDict ex_tree"
  by (simp add: ex_tree_conv_def dict_get_def ustr_def)

theorem linearize_reconciles_witness:
  "dict_get (ex_tree_conv (ustr ''b'')) (ustr ''mapping'') JNull = JDict ex_tree
   \<and> active_path_candidate no_floats (ex_tree_conv (ustr ''b'')) ex_tree = Inr [ex_msg ''hi'' 1, ex_msg ''x'' 2]
   \<and> latest_branch_candidate no_floats ex_tree = Inr [ex_msg ''hi'' 1, ex_msg ''y'' 3]
   \<and> [ex_msg ''hi'' 1, ex_msg ''x'' 2] \<noteq> []
   \<and> length [ex_msg ''hi'' 1, ex_msg ''y'' 3] \<le> length [ex_msg ''hi'' 1, ex_msg ''x'' 2]
   \<and> linearize_conversation no_floats (JDict (ex_tree_conv (ustr ''b''))) = Inr [ex_msg ''hi'' 1, ex_msg ''x'' 2]
   \<and> active_path_candidate no_floats (ex_tree_conv (ustr ''a'')) ex_tree = Inr [ex_msg ''hi'' 1]
   \<and> length [ex_msg ''hi'' 1] < length [ex_msg ''hi'' 1, ex_msg ''y'' 3]
   \<and> linearize_conversation no_floats (JDict (ex_tree_conv (ustr ''a''))) = Inr [ex_msg ''hi'' 1, ex_msg ''y'' 3]
   \<and> active_path_candidate no_floats (ex_tree_conv (ustr ''zz'')) ex_tree = Inr []
   \<and> linearize_conversation no_floats (JDict (ex_tree_conv (ustr ''zz''))) = Inr [ex_msg ''hi'' 1, ex_msg ''y'' 3]"
proof -
  have "linearize_conversation no_floats (JDict (ex_tree_conv (ustr ''b''))) = Inr [ex_msg ''hi'' 1, ex_msg ''x'' 2]"
    using linearize_reconciles [OF ex_tree_mapping ex_tree_active_b ex_tree_latest] by simp
  moreover
  have "linearize_conversation no_floats (JDict (ex_tree_conv (ustr ''a''))) = Inr [ex_msg ''hi'' 1, ex_msg ''y'' 3]"
    using linearize_reconciles [OF ex_tree_mapping ex_tree_active_a ex_tree_latest] by simp
  moreover
  have "linearize_conversation no_floats (JDict (ex_tree_conv (ustr ''zz''))) = Inr [ex_msg ''hi'' 1, ex_msg ''y'' 3]"
    using linearize_reconciles [OF ex_tree_mapping ex_tree_active_none ex_tree_latest] by simp
  ultimately show ?thesis
    using ex_tree_mapping ex_tree_active_b ex_tree_active_a ex_tree_active_none ex_tree_latest by simp
qed

section \<open>Properties of the topic segmenter\<close>

lemma ts_before_0 [simp]: "ts_before p prev ls 0 = prev"
  by (simp add: ts_before_def)

lemma ts_before_Suc [simp]:
  "ts_before p prev (x # xs) (Suc k) = ts_before p (next_last_ts prev (p x)) xs k"
  by (simp add: ts_before_def)



















section \<open>Properties of the topic splitter\<close>

lemma split_loop_titled:
  "t \<noteq> [] \<Longrightarrow>
   \<exists>ds. split_loop (Some t) buf ls = make_doc t (buf @ takeWhile (\<lambda>l. \<not> is_marker l) ls) # ds"
proof (induction ls arbitrary: buf)
  case Nil
  then show ?case by (simp add: flush_def)
next
  case (Cons l ls)
  show ?case
  proof (cases "is_marker l")
    case True
    with Cons.prems show ?thesis by (simp add: flush_def)
  next
    case False
    with Cons.IH [OF Cons.prems, of "buf @ [l]"] show ?thesis by simp
  qed
qed

lemma split_loop_untitled:
  "cur = None \<or> cur = Some [] \<Longrightarrow>
   (case split_loop cur buf ls of
      [] \<Rightarrow> \<not> list_ex titled_marker ls
    | d # ds \<Rightarrow> list_ex titled_marker ls \<and> prefix (buf @ takeWhile (\<lambda>l. \<not> is_marker l) ls) (d_body d))"
proof (induction ls arbitrary: buf cur)
  case Nil
  then show ?case by (auto simp: flush_def)
next
  case (Cons l ls)
  have fl: "flush cur buf = ([], buf)" using Cons.prems by (auto simp: flush_def)
  show ?case
  proof (cases "is_marker l")
    case False
    with Cons.IH [OF Cons.prems, of "buf @ [l]"] show ?thesis
      by (auto simp: titled_marker_def split: list.splits)
  next
    case True
    show ?thesis
    proof (cases "topic_title l = []")
      case True
      have "Some (topic_title l) = None \<or> Some (topic_title l) = Some []" using True by simp
      from Cons.IH [OF this, of buf] \<open>is_marker l\<close> True fl show ?thesis
        by (auto simp: titled_marker_def split: list.splits dest: append_prefixD)
    next
      case False
      from split_loop_titled [OF False, of buf ls] obtain ds where
        "split_loop (Some (topic_title l)) buf ls
           = make_doc (topic_title l) (buf @ takeWhile (\<lambda>l. \<not> is_marker l) ls) # ds" ..
      with \<open>is_marker l\<close> False fl show ?thesis
        by (simp add: titled_marker_def make_doc_def)
    qed
  qed
qed

text \<open>
  Claim C10. A \<open>flush\<close> with no title set returns the buffer as it is. So if any
  document is written at all (which happens exactly when some \<open>[TOPIC_START]\<close>
  line has a title), the body of the first document written begins with the lines
  that precede the first \<open>[TOPIC_START]\<close> line.
\<close>

theorem leading_lines_kept:
  "(case split_topics lines of
      [] \<Rightarrow> \<not> list_ex titled_marker lines
    | d # ds \<Rightarrow> list_ex titled_marker lines
          \<and> prefix (takeWhile (\<lambda>l. \<not> is_marker l) lines) (d_body d))
   \<and> snd (flush None buffer) = buffer"
proof -
  have "case split_loop None [] lines of
      [] \<Rightarrow> \<not> list_ex titled_marker lines
    | d # ds \<Rightarrow> list_ex titled_marker lines
          \<and> prefix ([] @ takeWhile (\<lambda>l. \<not> is_marker l) lines) (d_body d)"
    by (rule split_loop_untitled) simp
  then show ?thesis
    by (cases "split_loop None [] lines") (simp_all add: split_topics_def flush_def)
qed

lemma ex_split: "split_topics ex_topics_file =
       [\<lparr>d_filename = ustr ''2026-01-01_Topic-001.md'', d_title = ustr ''2026-01-01 Topic-001'',
         d_date = ustr ''2026-01-01'', d_body = [ustr ''intro'', ustr ''a'']\<rparr>,
        \<lparr>d_filename = ustr ''2026-01-02_Topic-002.md'', d_title = ustr ''2026-01-02 Topic-002'',
         d_date = ustr ''2026-01-02'', d_body = [ustr ''b'']\<rparr>]"
  by (simp add: split_topics_def ex_topics_file_def is_marker_def topic_start_tag_def topic_title_def
      flush_def make_doc_def remove_all.simps strip_def is_space_def filename_char_def ustr_def)


lemma ex_lead: "takeWhile (\<lambda>l. \<not> is_marker l) ex_topics_file = [ustr ''intro'']"
  by (simp add: ex_topics_file_def is_marker_def topic_start_tag_def ustr_def)

theorem leading_lines_kept_witness:
  "split_topics ex_topics_file =
       [\<lparr>d_filename = ustr ''2026-01-01_Topic-001.md'', d_title = ustr ''2026-01-01 Topic-001'',
         d_date = ustr ''2026-01-01'', d_body = [ustr ''intro'', ustr ''a'']\<rparr>,
        \<lparr>d_filename = ustr ''2026-01-02_Topic-002.md'', d_title = ustr ''2026-01-02 Topic-002'',
         d_date = ustr ''2026-01-02'', d_body = [ustr ''b'']\<rparr>]
   \<and> list_ex titled_marker ex_topics_file
   \<and> takeWhile (\<lambda>l. \<not> is_marker l) ex_topics_file = [ustr ''intro'']
   \<and> prefix [ustr ''intro'']
        (d_body \<lparr>d_filename = ustr ''2026-01-01_Topic-001.md'', d_title = ustr ''2026-01-01 Topic-001'',
         d_date = ustr ''2026-01-01'', d_body = [ustr ''intro'', ustr ''a'']\<rparr>)"
proof -
  from leading_lines_kept [of ex_topics_file]
  have "list_ex titled_marker ex_topics_file
     \<and> prefix (takeWhile (\<lambda>l. \<not> is_marker l) ex_topics_file)
        (d_body \<lparr>d_filename = ustr ''2026-01-01_Topic-001.md'', d_title = ustr ''2026-01-01 Topic-001'',
         d_date = ustr ''2026-01-01'', d_body = [ustr ''intro'', ustr ''a'']\<rparr>)"
    unfolding ex_split by simp
  then show ?thesis using ex_split ex_lead by simp
qed

section \<open>Properties of the month aggregator\<close>

lemma write_lines_eq:
  "write_lines other n ls =
     (n + length (filter has_tab ls),
      map (\<lambda>(i, l). render_line other (Suc i) l) (enumerate n (filter has_tab ls)))"
  by (induction ls arbitrary: n) auto

lemma write_day_eq:
  "write_day other counts mkey lines =
     ((case counts mkey of None \<Rightarrow> 0 | Some n \<Rightarrow> n) + length (written_lines other lines),
      map (\<lambda>(i, l). render_line other (Suc i) l)
        (enumerate (case counts mkey of None \<Rightarrow> 0 | Some n \<Rightarrow> n) (written_lines other lines)))"
  by (simp add: write_day_def write_lines_eq written_lines_def)

lemma month_loop_eq:
  assumes "\<forall>k. (case counts k of None \<Rightarrow> 0 | Some n \<Rightarrow> n) = length (written k)"
  shows "month_loop other counts written files mkey =
     written mkey @ map (\<lambda>(i, l). render_line other (Suc i) l)
       (enumerate (length (written mkey)) (merged_lines other mkey files))"
  using assms
proof (induction files arbitrary: counts written)
  case Nil
  then show ?case by (simp add: merged_lines_def)
next
  case (Cons fl files)
  obtain f lines where fl: "fl = (f, lines)" by (cases fl)
  let ?k = "month_key_of f"
  let ?n = "length (written ?k)"
  let ?new = "map (\<lambda>(i, l). render_line other (Suc i) l) (enumerate ?n (written_lines other lines))"
  let ?counts = "counts(?k \<mapsto> ?n + length (written_lines other lines))"
  let ?written = "written(?k := written ?k @ ?new)"
  have n: "(case counts ?k of None \<Rightarrow> 0 | Some n \<Rightarrow> n) = ?n" using Cons.prems by blast
  have step: "month_loop other counts written (fl # files) mkey = month_loop other ?counts ?written files mkey"
    by (simp add: fl write_day_eq n)
  have inv: "\<forall>k. (case ?counts k of None \<Rightarrow> 0 | Some n \<Rightarrow> n) = length (?written k)"
    using Cons.prems by auto
  note ih = Cons.IH [OF inv]
  show ?case
  proof (cases "mkey = ?k")
    case True
    have "merged_lines other mkey (fl # files) = written_lines other lines @ merged_lines other mkey files"
      using True by (simp add: merged_lines_def fl)
    moreover have "month_loop other ?counts ?written files mkey =
        ?written mkey @ map (\<lambda>(i, l). render_line other (Suc i) l)
          (enumerate (length (?written mkey)) (merged_lines other mkey files))"
      by (rule ih)
    ultimately show ?thesis
      unfolding step using True by (simp add: enumerate_append_eq)
  next
    case False
    then have "merged_lines other mkey (fl # files) = merged_lines other mkey files"
      by (auto simp: merged_lines_def fl)
    moreover have "month_loop other ?counts ?written files mkey =
        ?written mkey @ map (\<lambda>(i, l). render_line other (Suc i) l)
          (enumerate (length (?written mkey)) (merged_lines other mkey files))"
      by (rule ih)
    ultimately show ?thesis
      unfolding step using False by simp
  qed
qed

lemma build_month_files_eq:
  "build_month_files other (Some listing) mkey =
     map (\<lambda>(i, l). render_line other (Suc i) l) (enumerate 0 (merged_lines other mkey (raw_files listing)))"
  using month_loop_eq [of Map.empty "\<lambda>mkey. []" other "raw_files listing" mkey]
  by (simp add: build_month_files_def)

lemma merged_keys:
  "map (key_fn other) (merged_lines other mkey (raw_files listing)) = concat (day_chunks other mkey listing)"
  by (simp add: merged_lines_def day_chunks_def month_days_def map_concat comp_def case_prod_unfold)

lemma chunks_sorted: "list_all sorted (day_chunks other mkey listing)"
proof -
  have "sorted (map (key_fn other) (written_lines other lines))" for lines
    unfolding written_lines_def by (intro sorted_filter sorted_sort_key)
  then show ?thesis
    by (auto simp: day_chunks_def list_all_iff)
qed

lemma sorted_concat_chunks:
  "list_all sorted cs \<Longrightarrow> sorted (concat cs) \<longleftrightarrow> chunks_in_order cs"
  by (induction cs) (auto simp: sorted_append)


lemma anchors_enumerate:
  "map l_anchor (map (\<lambda>(i, l). render_line other (Suc i) l) (enumerate n xs))
     = [Suc n..<Suc (n + length xs)]"
proof -
  have "map l_anchor (map (\<lambda>(i, l). render_line other (Suc i) l) (enumerate n xs))
      = map Suc (map fst (enumerate n xs))"
    by (induction xs arbitrary: n) (simp_all add: render_line_def)
  also have "\<dots> = map Suc [n..<n + length xs]"
    by (simp only: map_fst_enumerate)
  also have "\<dots> = [Suc n..<Suc (n + length xs)]"
    by (simp only: map_Suc_upt)
  finally show ?thesis .
qed

lemma keys_enumerate:
  "map l_ts (map (\<lambda>(i, l). render_line other (Suc i) l) (enumerate n xs)) = map (key_fn other) xs"
  by (induction xs arbitrary: n) (simp_all add: render_line_def)

text \<open>
  Claim C7, as the code has it. In the lines that one run appends to a month file,
  the anchors count 1, 2, 3, ... across all the day files of the month, and each
  line ends with its anchor. The lines are the day files in the order of their
  names, each day file sorted by its leading timestamps. So the timestamps of the
  month file are non-decreasing exactly when no line of a day file has a greater
  timestamp than a line of a later day file.
\<close>

theorem month_anchors_and_order:
  "map l_anchor (build_month_files other (Some listing) mkey)
      = [1..<Suc (length (build_month_files other (Some listing) mkey))]
   \<and> list_all (\<lambda>e. suffix (ustr '' '' @ anchor (l_anchor e) @ [10]) (l_text e))
        (build_month_files other (Some listing) mkey)
   \<and> map l_ts (build_month_files other (Some listing) mkey) = concat (day_chunks other mkey listing)
   \<and> list_all sorted (day_chunks other mkey listing)
   \<and> (sorted (map l_ts (build_month_files other (Some listing) mkey))
        \<longleftrightarrow> chunks_in_order (day_chunks other mkey listing))"
proof -
  let ?ls = "merged_lines other mkey (raw_files listing)"
  let ?es = "build_month_files other (Some listing) mkey"
  have es: "?es = map (\<lambda>(i, l). render_line other (Suc i) l) (enumerate 0 ?ls)"
    by (rule build_month_files_eq)
  have a: "map l_anchor ?es = [1..<Suc (length ?es)]"
    using anchors_enumerate [of other 0 ?ls] by (simp add: es)
  have b: "list_all (\<lambda>e. suffix (ustr '' '' @ anchor (l_anchor e) @ [10]) (l_text e)) ?es"
    by (auto simp: es list_all_iff render_line_def suffix_def)
  have c: "map l_ts ?es = concat (day_chunks other mkey listing)"
    using keys_enumerate [of other 0 ?ls] by (simp add: es merged_keys)
  from a b c chunks_sorted [of other mkey listing]
    sorted_concat_chunks [OF chunks_sorted [of other mkey listing]]
  show ?thesis by simp
qed

lemma decimal_small:
  "decimal (Suc 0) = [49]" "decimal (Suc (Suc 0)) = [50]" "decimal (Suc (Suc (Suc 0))) = [51]"
  by (simp_all add: decimal.simps)

lemma replicate_5: "replicate 5 x = [x, x, x, x, x]"
  by (simp add: eval_nat_numeral)

lemmas month_eval = replicate_5 build_month_files_eq merged_lines_def raw_files_def month_key_of_def
  remove_all.simps written_lines_def render_line_def key_fn_def safe_int_def plain_decimal_def
  is_digit_def digits_value_def has_tab_def before_tab_def after_tab_def anchor_def zero_pad_def
  decimal_small strip_def is_space_def ustr_def suffix_def no_other_numbers_def enumerate_eq_zip

theorem month_anchors_and_order_witness:
  "day_chunks no_other_numbers (ustr ''2026-01'') ex_day_dir_sorted = [[1000, 2000], [90000]]
   \<and> chunks_in_order [[1000, 2000], [90000]]
   \<and> build_month_files no_other_numbers (Some ex_day_dir_sorted) (ustr ''2026-01'')
     = [\<lparr>l_ts = 1000, l_anchor = 1, l_text = ustr ''[1970-01-01 00:16:40] user: A ^msg-000001'' @ [10]\<rparr>,
        \<lparr>l_ts = 2000, l_anchor = 2, l_text = ustr ''[1970-01-01 00:33:20] assistant: B ^msg-000002'' @ [10]\<rparr>,
        \<lparr>l_ts = 90000, l_anchor = 3, l_text = ustr ''[1970-01-02 01:00:00] user: C ^msg-000003'' @ [10]\<rparr>]
   \<and> map l_ts (build_month_files no_other_numbers (Some ex_day_dir_sorted) (ustr ''2026-01''))
       = concat [[1000, 2000], [90000]]
   \<and> sorted (map l_ts (build_month_files no_other_numbers (Some ex_day_dir_sorted) (ustr ''2026-01'')))"
proof -
  have c: "day_chunks no_other_numbers (ustr ''2026-01'') ex_day_dir_sorted = [[1000, 2000], [90000]]"
    by (simp add: day_chunks_def month_days_def month_eval ex_day_dir_sorted_def)
  have o: "chunks_in_order [[1000, 2000], [90000]]" by simp
  have e: "build_month_files no_other_numbers (Some ex_day_dir_sorted) (ustr ''2026-01'')
     = [\<lparr>l_ts = 1000, l_anchor = 1, l_text = ustr ''[1970-01-01 00:16:40] user: A ^msg-000001'' @ [10]\<rparr>,
        \<lparr>l_ts = 2000, l_anchor = 2, l_text = ustr ''[1970-01-01 00:33:20] assistant: B ^msg-000002'' @ [10]\<rparr>,
        \<lparr>l_ts = 90000, l_anchor = 3, l_text = ustr ''[1970-01-02 01:00:00] user: C ^msg-000003'' @ [10]\<rparr>]"
    by (simp add: month_eval ex_day_dir_sorted_def)
  from month_anchors_and_order [of no_other_numbers ex_day_dir_sorted "ustr ''2026-01''"]
  have "map l_ts (build_month_files no_other_numbers (Some ex_day_dir_sorted) (ustr ''2026-01''))
       = concat [[1000, 2000], [90000]]
     \<and> sorted (map l_ts (build_month_files no_other_numbers (Some ex_day_dir_sorted) (ustr ''2026-01'')))"
    unfolding c using o by blast
  with c o e show ?thesis by blast
qed

text \<open>
  The order across day files is the order of the file names, whatever the files
  hold: here the month file is not in the order of the timestamps.
\<close>

theorem day_files_out_of_order:
  "build_month_files no_other_numbers (Some ex_day_dir) (ustr ''2026-01'')
     = [\<lparr>l_ts = 90000, l_anchor = 1, l_text = ustr ''[1970-01-02 01:00:00] user: B ^msg-000001'' @ [10]\<rparr>,
        \<lparr>l_ts = 1000, l_anchor = 2, l_text = ustr ''[1970-01-01 00:16:40] user: A ^msg-000002'' @ [10]\<rparr>]
   \<and> \<not> sorted (map l_ts (build_month_files no_other_numbers (Some ex_day_dir) (ustr ''2026-01'')))"
proof -
  have e: "build_month_files no_other_numbers (Some ex_day_dir) (ustr ''2026-01'')
     = [\<lparr>l_ts = 90000, l_anchor = 1, l_text = ustr ''[1970-01-02 01:00:00] user: B ^msg-000001'' @ [10]\<rparr>,
        \<lparr>l_ts = 1000, l_anchor = 2, l_text = ustr ''[1970-01-01 00:16:40] user: A ^msg-000002'' @ [10]\<rparr>]"
    by (simp add: month_eval ex_day_dir_def)
  show ?thesis unfolding e by simp
qed

section \<open>Properties of the retained messages\<close>

lemma path_to_messages_nonempty:
  "path_to_messages fl mp ids = Inr ms \<Longrightarrow> list_all nonempty_content ms"
proof (induction ids arbitrary: ms)
  case Nil
  then show ?case by simp
next
  case (Cons pid rest)
  then show ?case
    by (auto simp: nonempty_content_def split: sum.splits if_splits)
qed

lemma linearize_nonempty:
  assumes "linearize_conversation fl conv = Inr ms"
  shows "list_all nonempty_content ms"
proof -
  have c: "active_path_candidate fl cd mp = Inr p \<Longrightarrow> list_all nonempty_content p" for cd mp p
    by (auto simp: active_path_candidate_def split: sum.splits dest: path_to_messages_nonempty)
  have d: "latest_branch_candidate fl mp = Inr p \<Longrightarrow> list_all nonempty_content p" for mp p
    by (auto simp: latest_branch_candidate_def split: sum.splits dest: path_to_messages_nonempty)
  from assms show ?thesis
    by (auto simp: linearize_conversation_def split: if_splits json.splits sum.splits dest: c d)
qed

lemma normalize_all_length: "normalize_all fl raw = Inr ms \<Longrightarrow> length ms = length raw"
  by (induction raw arbitrary: ms) (auto split: sum.splits)

lemma normalize_all_nth:
  "normalize_all fl raw = Inr ms \<Longrightarrow> i < length raw \<Longrightarrow> normalize_message fl (raw ! i) = Inr (ms ! i)"
proof (induction raw arbitrary: ms i)
  case Nil
  then show ?case by simp
next
  case (Cons r raw)
  then show ?case
    by (cases i) (auto split: sum.splits)
qed

lemma write_messages_filter:
  "write_messages env ms = write_messages env (filter nonempty_content ms)"
  by (induction ms) (auto simp: nonempty_content_def split: sum.splits)

lemma write_messages_lines:
  "write_messages env ms = (as, None) \<Longrightarrow>
     map Inr as = map (day_line env) (filter nonempty_content ms)"
proof (induction ms arbitrary: as)
  case Nil
  then show ?case by simp
next
  case (Cons m ms)
  then show ?case
    by (auto simp: nonempty_content_def split: sum.splits prod.splits if_splits)
qed


lemma yield_mapping_nonempty:
  "list_all (has_mapping fl) convs \<Longrightarrow>
   list_all (\<lambda>c. list_all nonempty_content (c_messages c)) (fst (yield_conversations fl convs))"
proof (induction convs)
  case Nil
  then show ?case by simp
next
  case (Cons conv convs)
  then have ih: "list_all (\<lambda>c. list_all nonempty_content (c_messages c)) (fst (yield_conversations fl convs))"
    by simp
  from Cons.prems obtain cd where cd: "conv = JDict cd" "truthy fl (dict_get cd (ustr ''mapping'') JNull)"
    by (auto simp: has_mapping_def split: json.splits)
  show ?case
  proof (cases "linearize_conversation fl conv")
    case (Inl e)
    with cd show ?thesis by (simp add: conversation_messages_def)
  next
    case (Inr ms)
    then have "list_all nonempty_content ms"
      by (rule linearize_nonempty)
    with Inr cd ih show ?thesis
      by (cases "yield_conversations fl convs") (simp add: conversation_messages_def)
  qed
qed

lemma normalize_all_map:
  "normalize_all fl raw = Inr ns \<Longrightarrow> map Inr ns = map (normalize_message fl) raw"
  by (induction raw arbitrary: ns) (auto split: sum.splits)

lemma flat_messages:
  assumes "\<not> truthy fl (dict_get cd (ustr ''mapping'') JNull)"
    and "py_iter (py_or fl (dict_get cd (ustr ''messages'') (JList [])) (JList [])) = Inr raw"
  shows "conversation_messages fl (JDict cd) = normalize_all fl raw"
  using assms by (simp add: conversation_messages_def)

lemma yield_messages:
  "yield_conversations fl convs = (ys, None) \<Longrightarrow>
   map Inr (map c_messages ys) = filter (\<lambda>r. r \<noteq> Inr []) (map (conversation_messages fl) convs)"
proof (induction convs arbitrary: ys)
  case Nil
  then show ?case by simp
next
  case (Cons conv rest)
  from Cons.prems obtain messages where m: "conversation_messages fl conv = Inr messages"
    by (cases "conversation_messages fl conv") auto
  obtain ys' err where y: "yield_conversations fl rest = (ys', err)"
    by (cases "yield_conversations fl rest") auto
  from Cons.prems m y have err: "err = None"
    and ys: "ys = (if messages \<noteq> []
                 then [\<lparr>c_title = conversation_title fl conv, c_messages = messages\<rparr>]
                 else []) @ ys'"
    by auto
  from Cons.IH [of ys'] y err
  have "map Inr (map c_messages ys') = filter (\<lambda>r. r \<noteq> Inr []) (map (conversation_messages fl) rest)"
    by simp
  with m ys show ?case by simp
qed

text \<open>
  Claim C3, as the code has it. Every message of a linearized conversation has
  content, so every conversation yielded from the branching form holds only
  messages with content. In the flat form nothing is dropped: the messages of the
  conversation are the normalized raw messages of its \<open>messages\<close> list, one for
  one and in their order, whatever their content. When the generator ends without
  an exception, the message lists of the conversations it yields are the message
  lists of the conversations of the export that are not empty, in their order, so
  a flat conversation is yielded with every one of its normalized messages.
  Messages with empty content are dropped by the day writer: what
  \<open>write_by_day_raw\<close> appends is what it appends for the messages with content
  alone, one line for each of them.
\<close>

theorem mapping_content_nonempty:
  "(linearize_conversation fl conv = Inr ms \<longrightarrow> list_all nonempty_content ms)
   \<and> (list_all (has_mapping fl) (conversations_of fl obj) \<longrightarrow>
        list_all (\<lambda>c. list_all nonempty_content (c_messages c)) (fst (parse_openai_conversations fl obj)))
   \<and> (normalize_all fl raw = Inr ns \<longrightarrow>
        length ns = length raw \<and> (\<forall>i < length raw. normalize_message fl (raw ! i) = Inr (ns ! i)))
   \<and> (\<not> truthy fl (dict_get cd (ustr ''mapping'') JNull)
        \<and> py_iter (py_or fl (dict_get cd (ustr ''messages'') (JList [])) (JList [])) = Inr raw_msgs
        \<and> conversation_messages fl (JDict cd) = Inr flat
      \<longrightarrow> length flat = length raw_msgs \<and> map Inr flat = map (normalize_message fl) raw_msgs)
   \<and> (parse_openai_conversations fl export = (ys, None) \<longrightarrow>
        map Inr (map c_messages ys)
          = filter (\<lambda>r. r \<noteq> Inr []) (map (conversation_messages fl) (conversations_of fl export)))
   \<and> write_by_day_raw env convs
        = write_messages env (filter nonempty_content (concat (map c_messages convs)))
   \<and> (write_by_day_raw env convs = (written, None) \<longrightarrow>
        map Inr written = map (day_line env) (filter nonempty_content (concat (map c_messages convs))))"
proof (intro conjI impI allI)
  assume "linearize_conversation fl conv = Inr ms"
  then show "list_all nonempty_content ms"
    by (rule linearize_nonempty)
next
  assume "list_all (has_mapping fl) (conversations_of fl obj)"
  then show "list_all (\<lambda>c. list_all nonempty_content (c_messages c)) (fst (parse_openai_conversations fl obj))"
    unfolding parse_openai_conversations_def by (rule yield_mapping_nonempty)
next
  assume "normalize_all fl raw = Inr ns"
  then show "length ns = length raw" by (rule normalize_all_length)
next
  fix i
  assume "normalize_all fl raw = Inr ns" "i < length raw"
  then show "normalize_message fl (raw ! i) = Inr (ns ! i)" by (rule normalize_all_nth)
next
  assume a: "\<not> truthy fl (dict_get cd (ustr ''mapping'') JNull)
        \<and> py_iter (py_or fl (dict_get cd (ustr ''messages'') (JList [])) (JList [])) = Inr raw_msgs
        \<and> conversation_messages fl (JDict cd) = Inr flat"
  then have n: "normalize_all fl raw_msgs = Inr flat"
    using flat_messages [of fl cd raw_msgs] by simp
  then show "length flat = length raw_msgs" by (rule normalize_all_length)
  from n show "map Inr flat = map (normalize_message fl) raw_msgs" by (rule normalize_all_map)
next
  assume "parse_openai_conversations fl export = (ys, None)"
  then show "map Inr (map c_messages ys)
          = filter (\<lambda>r. r \<noteq> Inr []) (map (conversation_messages fl) (conversations_of fl export))"
    unfolding parse_openai_conversations_def by (rule yield_messages)
next
  show "write_by_day_raw env convs
        = write_messages env (filter nonempty_content (concat (map c_messages convs)))"
    using write_messages_filter [of env "concat (map c_messages convs)"]
    by (simp add: write_by_day_raw_def)
next
  assume "write_by_day_raw env convs = (written, None)"
  then show "map Inr written = map (day_line env) (filter nonempty_content (concat (map c_messages convs)))"
    using write_messages_lines [of env "concat (map c_messages convs)" written]
    by (simp add: write_by_day_raw_def)
qed

lemmas parse_eval = parse_openai_conversations_def conversations_of_def conversation_messages_def
  conversation_title_def eval_defs no_floats_def

lemma ex_flat_parse:
  "parse_openai_conversations no_floats ex_flat =
     ([ex_flat_conv], None)"
  by (simp add: parse_eval ex_flat_def ex_flat_msgs_def ex_flat_conv_def ex_msg_def)

lemma decimal_0: "decimal 0 = [48]"
  by (simp add: decimal.simps)

lemma ex_tree_linearize:
  "linearize_conversation no_floats (JDict (ex_tree_conv (ustr ''b''))) = Inr [ex_msg ''hi'' 1, ex_msg ''x'' 2]"
  using linearize_dict [OF ex_tree_mapping ex_tree_active_b ex_tree_latest] by simp

lemma ex_blank_mapping: "dict_get ex_blank_conv (ustr ''mapping'') JNull = JDict ex_blank"
  by (simp add: ex_blank_conv_def dict_get_def ustr_def)

lemma ex_blank_active:
  "active_path_candidate no_floats ex_blank_conv ex_blank = Inr [ex_msg ''hi'' 0]"
  by (simp add: lin_eval ex_blank_def ex_blank_conv_def ex_msg_def)

lemma ex_blank_latest:
  "latest_branch_candidate no_floats ex_blank = Inr [ex_msg ''hi'' 0]"
  by (simp add: lin_eval ex_blank_def ex_msg_def)

lemma ex_blank_linearize:
  "linearize_conversation no_floats (JDict ex_blank_conv) = Inr [ex_msg ''hi'' 0]"
  using linearize_dict [OF ex_blank_mapping ex_blank_active ex_blank_latest] by simp

lemma ex_blank_node:
  "normalize_message no_floats (JDict [(ustr ''content'', JStr (ustr ''  ''))]) = Inr (ex_msg [] 0)"
  by (simp add: eval_defs no_floats_def ex_msg_def)

lemma ex_blank_truthy: "truthy no_floats (dict_get ex_blank_conv (ustr ''mapping'') JNull)"
  by (simp add: ex_blank_mapping ex_blank_def)

lemma ex_blank_title:
  "conversation_title no_floats (JDict ex_blank_conv) = JStr (ustr ''Conversation'')"
  by (simp add: conversation_title_def ex_blank_conv_def eval_defs no_floats_def ustr_def)

lemma ex_blank_messages:
  "conversation_messages no_floats (JDict ex_blank_conv) = Inr [ex_msg ''hi'' 0]"
  by (simp add: conversation_messages_def ex_blank_truthy ex_blank_linearize)

lemma ex_blank_parse:
  "parse_openai_conversations no_floats (JList [JDict ex_blank_conv])
     = ([\<lparr>c_title = JStr (ustr ''Conversation''), c_messages = [ex_msg ''hi'' 0]\<rparr>], None)"
  by (simp add: parse_openai_conversations_def conversations_of_def ex_blank_messages ex_blank_title)

lemma ex_flat_raw:
  "\<not> truthy no_floats (dict_get ex_flat_dict (ustr ''mapping'') JNull)"
  "py_iter (py_or no_floats (dict_get ex_flat_dict (ustr ''messages'') (JList [])) (JList [])) = Inr ex_flat_msgs"
  by (simp_all add: ex_flat_dict_def ex_flat_msgs_def eval_defs no_floats_def ustr_def)

lemma ex_flat_messages:
  "conversation_messages no_floats (JDict ex_flat_dict) = Inr [ex_msg [] 0, ex_msg ''hi'' 0]"
  by (simp add: conversation_messages_def ex_flat_dict_def ex_flat_msgs_def eval_defs no_floats_def ex_msg_def)


lemma ex_flat_title:
  "conversation_title no_floats (JDict ex_flat_dict) = JStr (ustr ''Conversation'')"
  by (simp add: conversation_title_def ex_flat_dict_def eval_defs no_floats_def ustr_def)

lemma ex_mixed_parse:
  "parse_openai_conversations no_floats ex_mixed = ([ex_blank_yield, ex_flat_conv], None)"
  by (simp add: parse_openai_conversations_def conversations_of_def ex_mixed_def ex_blank_messages
      ex_blank_title ex_flat_messages ex_flat_title ex_blank_yield_def ex_flat_conv_def)

theorem mapping_content_nonempty_witness:
  "linearize_conversation no_floats (JDict ex_blank_conv) = Inr [ex_msg ''hi'' 0]
   \<and> normalize_message no_floats (JDict [(ustr ''content'', JStr (ustr ''  ''))]) = Inr (ex_msg [] 0)
   \<and> list_all nonempty_content [ex_msg ''hi'' 0]
   \<and> list_all (has_mapping no_floats) (conversations_of no_floats (JList [JDict ex_blank_conv]))
   \<and> list_all (\<lambda>c. list_all nonempty_content (c_messages c))
        (fst (parse_openai_conversations no_floats (JList [JDict ex_blank_conv])))
   \<and> parse_openai_conversations no_floats (JList [JDict ex_blank_conv]) = ([ex_blank_yield], None)
   \<and> normalize_all no_floats ex_flat_msgs = Inr [ex_msg [] 0, ex_msg ''hi'' 0]
   \<and> length [ex_msg [] 0, ex_msg ''hi'' 0] = length ex_flat_msgs
   \<and> normalize_message no_floats (ex_flat_msgs ! 0) = Inr ([ex_msg [] 0, ex_msg ''hi'' 0] ! 0)
   \<and> \<not> truthy no_floats (dict_get ex_flat_dict (ustr ''mapping'') JNull)
   \<and> py_iter (py_or no_floats (dict_get ex_flat_dict (ustr ''messages'') (JList [])) (JList []))
        = Inr ex_flat_msgs
   \<and> conversation_messages no_floats (JDict ex_flat_dict) = Inr [ex_msg [] 0, ex_msg ''hi'' 0]
   \<and> map Inr [ex_msg [] 0, ex_msg ''hi'' 0] = map (normalize_message no_floats) ex_flat_msgs
   \<and> parse_openai_conversations no_floats ex_mixed = ([ex_blank_yield, ex_flat_conv], None)
   \<and> map Inr (map c_messages [ex_blank_yield, ex_flat_conv])
        = filter (\<lambda>r. r \<noteq> Inr [])
            (map (conversation_messages no_floats) (conversations_of no_floats ex_mixed))
   \<and> c_messages ex_flat_conv = [ex_msg [] 0, ex_msg ''hi'' 0]
   \<and> write_by_day_raw no_clock [ex_flat_conv]
        = ([(ustr ''unknown'', ustr ''0'' @ [9] @ ustr ''[] assistant: hi'' @ [10])], None)
   \<and> map Inr [(ustr ''unknown'', ustr ''0'' @ [9] @ ustr ''[] assistant: hi'' @ [10])]
        = map (day_line no_clock) (filter nonempty_content (concat (map c_messages [ex_flat_conv])))"
proof -
  note t = mapping_content_nonempty [where fl = no_floats and conv = "JDict ex_blank_conv"
      and ms = "[ex_msg ''hi'' 0]" and obj = "JList [JDict ex_blank_conv]"
      and raw = ex_flat_msgs and ns = "[ex_msg [] 0, ex_msg ''hi'' 0]"
      and cd = ex_flat_dict and raw_msgs = ex_flat_msgs and flat = "[ex_msg [] 0, ex_msg ''hi'' 0]"
      and export = ex_mixed and ys = "[ex_blank_yield, ex_flat_conv]"
      and env = no_clock and convs = "[ex_flat_conv]"
      and written = "[(ustr ''unknown'', ustr ''0'' @ [9] @ ustr ''[] assistant: hi'' @ [10])]"]
  have h1: "linearize_conversation no_floats (JDict ex_blank_conv) = Inr [ex_msg ''hi'' 0]"
    by (rule ex_blank_linearize)
  have h1': "normalize_message no_floats (JDict [(ustr ''content'', JStr (ustr ''  ''))]) = Inr (ex_msg [] 0)"
    by (rule ex_blank_node)
  have h2: "list_all (has_mapping no_floats) (conversations_of no_floats (JList [JDict ex_blank_conv]))"
    by (simp add: conversations_of_def has_mapping_def ex_blank_truthy)
  have h2': "parse_openai_conversations no_floats (JList [JDict ex_blank_conv]) = ([ex_blank_yield], None)"
    by (simp add: ex_blank_parse ex_blank_yield_def)
  have h3: "normalize_all no_floats ex_flat_msgs = Inr [ex_msg [] 0, ex_msg ''hi'' 0]"
    by (simp add: ex_flat_msgs_def eval_defs no_floats_def ex_msg_def)
  have h4: "write_by_day_raw no_clock [ex_flat_conv]
        = ([(ustr ''unknown'', ustr ''0'' @ [9] @ ustr ''[] assistant: hi'' @ [10])], None)"
    by (simp add: write_by_day_raw_def ex_flat_conv_def ex_msg_def day_line_def show_int_def
        show_role_def decimal_0 ustr_def)
  have h5: "(0::nat) < length ex_flat_msgs" by (simp add: ex_flat_msgs_def)
  have h6: "\<not> truthy no_floats (dict_get ex_flat_dict (ustr ''mapping'') JNull)"
    by (rule ex_flat_raw(1))
  have h7: "py_iter (py_or no_floats (dict_get ex_flat_dict (ustr ''messages'') (JList [])) (JList []))
        = Inr ex_flat_msgs"
    by (rule ex_flat_raw(2))
  have h8: "conversation_messages no_floats (JDict ex_flat_dict) = Inr [ex_msg [] 0, ex_msg ''hi'' 0]"
    by (rule ex_flat_messages)
  have h9: "parse_openai_conversations no_floats ex_mixed = ([ex_blank_yield, ex_flat_conv], None)"
    by (rule ex_mixed_parse)
  have h10: "c_messages ex_flat_conv = [ex_msg [] 0, ex_msg ''hi'' 0]"
    by (simp add: ex_flat_conv_def)
  from t h1 have c1: "list_all nonempty_content [ex_msg ''hi'' 0]" by blast
  from t h2 have c2: "list_all (\<lambda>c. list_all nonempty_content (c_messages c))
        (fst (parse_openai_conversations no_floats (JList [JDict ex_blank_conv])))" by blast
  from t h3 h5 have c3: "length [ex_msg [] 0, ex_msg ''hi'' 0] = length ex_flat_msgs
     \<and> normalize_message no_floats (ex_flat_msgs ! 0) = Inr ([ex_msg [] 0, ex_msg ''hi'' 0] ! 0)" by blast
  from t h6 h7 h8 have c4: "map Inr [ex_msg [] 0, ex_msg ''hi'' 0] = map (normalize_message no_floats) ex_flat_msgs"
    by blast
  from t h9 have c5: "map Inr (map c_messages [ex_blank_yield, ex_flat_conv])
        = filter (\<lambda>r. r \<noteq> Inr [])
            (map (conversation_messages no_floats) (conversations_of no_floats ex_mixed))" by blast
  from t h4 have c6: "map Inr [(ustr ''unknown'', ustr ''0'' @ [9] @ ustr ''[] assistant: hi'' @ [10])]
        = map (day_line no_clock) (filter nonempty_content (concat (map c_messages [ex_flat_conv])))" by blast
  from h1 h1' h2 h2' h3 h4 h6 h7 h8 h9 h10 c1 c2 c3 c4 c5 c6 show ?thesis by blast
qed

text \<open>
  In the flat form a message whose content trims to the empty string stays in the
  yielded conversation.
\<close>

theorem flat_form_keeps_empty_content:
  "parse_openai_conversations no_floats ex_flat =
     ([ex_flat_conv], None)
   \<and> m_content (ex_msg [] 0) = []
   \<and> \<not> list_all (\<lambda>c. list_all nonempty_content (c_messages c))
         (fst (parse_openai_conversations no_floats ex_flat))"
  unfolding ex_flat_parse by (simp add: ex_flat_conv_def ex_msg_def nonempty_content_def ustr_def)

section \<open>Properties of the streaming value source\<close>

text \<open>
  A value that does not decode when the file is exhausted ends the generator with
  \<open>JSONDecodeError\<close>; a closing bracket, or an empty buffer at the end of the
  file, ends it normally. A file without any \<open>[\<close> also ends it normally, with
  no value.
\<close>

lemma find_array_start_none:
  "91 \<notin> set buf \<Longrightarrow> 91 \<notin> set rest \<Longrightarrow> find_array_start buf rest = None"
proof (induction buf rest rule: find_array_start.induct)
  case (1 buf rest)
  show ?case
  proof (cases "take CHUNK_SIZE rest = []")
    case True
    then show ?thesis by (simp add: find_array_start.simps)
  next
    case False
    have a: "91 \<notin> set (buf @ take CHUNK_SIZE rest)"
      using "1.prems" by (auto dest: in_set_takeD)
    have b: "91 \<notin> set (drop CHUNK_SIZE rest)"
      using "1.prems" by (auto dest: in_set_dropD)
    from "1.IH" [OF False a a b] False a show ?thesis
      by (subst find_array_start.simps) simp
  qed
qed


lemma no_array_start_finishes:
  "91 \<notin> set content \<Longrightarrow> iter_json_array raw_decode content = Some ([], Finished)"
  by (simp add: iter_json_array_def find_array_start_none)

lemma decode_failure_at_end:
  assumes "dropWhile is_separator buf \<noteq> []" and "hd (dropWhile is_separator buf) \<noteq> 93"
    and "raw_decode (dropWhile is_separator buf) = None"
  shows "array_loop raw_decode buf [] = Some ([], JSONDecodeError)"
  using assms by (subst array_loop.simps) (simp del: dropWhile_eq_Nil_conv)

lemma closing_bracket_finishes:
  assumes "dropWhile is_separator buf \<noteq> []" and "hd (dropWhile is_separator buf) = 93"
  shows "array_loop raw_decode buf rest = Some ([], Finished)"
  using assms by (subst array_loop.simps) (simp del: dropWhile_eq_Nil_conv)

lemma empty_buffer_at_end_finishes:
  assumes "dropWhile is_separator buf = []"
  shows "array_loop raw_decode buf [] = Some ([], Finished)"
  using assms by (subst array_loop.simps) (simp del: dropWhile_eq_Nil_conv)

text \<open>
  Claim C4 says that a top-level structure that is no array reachable by the scan
  is a parse error, and \<open>main\<close> relies on the exception to fall back to the bulk
  parse (``fallback to full load if file is object''). For the file above the
  generator returns without a value and without an exception, although the bulk
  parse of the same file yields a conversation.
\<close>

theorem object_file_streams_nothing:
  "iter_json_array raw_decode ex_object_file = Some ([], Finished)
   \<and> parse_openai_conversations no_floats ex_object
       = ([\<lparr>c_title = JStr (ustr ''Conversation''), c_messages = [ex_msg ''hi'' 0]\<rparr>], None)"
proof
  have "91 \<notin> set ex_object_file"
    by (simp add: ex_object_file_def quoted_def ustr_def)
  then show "iter_json_array raw_decode ex_object_file = Some ([], Finished)"
    by (rule no_array_start_finishes)
  have m: "dict_get [(ustr ''mapping'',
       JDict [(ustr ''a'', JDict [(ustr ''message'', JDict [(ustr ''content'', JStr (ustr ''hi''))])])])]
       (ustr ''mapping'') JNull
     = JDict [(ustr ''a'', JDict [(ustr ''message'', JDict [(ustr ''content'', JStr (ustr ''hi'') :: unit json)])])]"
    by (simp add: dict_get_def)
  have a: "active_path_candidate no_floats [(ustr ''mapping'',
       JDict [(ustr ''a'', JDict [(ustr ''message'', JDict [(ustr ''content'', JStr (ustr ''hi''))])])])]
       [(ustr ''a'', JDict [(ustr ''message'', JDict [(ustr ''content'', JStr (ustr ''hi''))])])] = Inr []"
    by (simp add: lin_eval)
  have l: "latest_branch_candidate no_floats
       [(ustr ''a'', JDict [(ustr ''message'', JDict [(ustr ''content'', JStr (ustr ''hi''))])])]
       = Inr [ex_msg ''hi'' 0]"
    by (simp add: lin_eval ex_msg_def)
  have "linearize_conversation no_floats ex_object = Inr [ex_msg ''hi'' 0]"
    unfolding ex_object_def using linearize_dict [OF m a l] by simp
  then show "parse_openai_conversations no_floats ex_object
       = ([\<lparr>c_title = JStr (ustr ''Conversation''), c_messages = [ex_msg ''hi'' 0]\<rparr>], None)"
    by (simp add: parse_openai_conversations_def conversations_of_def conversation_messages_def
        conversation_title_def ex_object_def dict_get_def py_or_def ustr_def)
qed

end
